theory Spec2Isabelle
  imports Complex_Main
begin

section \<open>Board model (ludoRules: constants and lookups)\<close>

text \<open>
  The rules module keeps the board as plain numbers: the shared path is the cells
  \<open>0..51\<close>, \<open>-1\<close> is the home yard and \<open>52..57\<close> is the finish area of whichever
  colour the piece has. Positions and dice values are JavaScript numbers; every value
  the code computes from them here is an integer, so they are modelled as \<open>int\<close>.
\<close>

abbreviation (input) BOARD_SIZE :: int where "BOARD_SIZE \<equiv> 52"
abbreviation (input) HOME_POSITION :: int where "HOME_POSITION \<equiv> - 1"
abbreviation (input) FINISH_START :: int where "FINISH_START \<equiv> 52"
abbreviation (input) FINISH_END :: int where "FINISH_END \<equiv> 57"
abbreviation (input) PIECES_PER_PLAYER :: nat where "PIECES_PER_PLAYER \<equiv> 4"
abbreviation (input) MAX_PLAYERS :: nat where "MAX_PLAYERS \<equiv> 4"
abbreviation (input) MIN_PLAYERS :: nat where "MIN_PLAYERS \<equiv> 2"
abbreviation (input) DICE_MIN :: int where "DICE_MIN \<equiv> 1"
abbreviation (input) DICE_MAX :: int where "DICE_MAX \<equiv> 6"

text \<open>\<open>PLAYER_COLORS\<close>: the four colour strings the code ever assigns to a player.\<close>

datatype color = Red | Blue | Green | Yellow

definition PLAYER_COLORS :: "color list" where
  "PLAYER_COLORS = [Red, Blue, Green, Yellow]"

fun PLAYER_START_POSITIONS :: "color \<Rightarrow> int" where
  "PLAYER_START_POSITIONS Red = 0"
| "PLAYER_START_POSITIONS Blue = 13"
| "PLAYER_START_POSITIONS Green = 26"
| "PLAYER_START_POSITIONS Yellow = 39"

fun HOME_ENTRY_POSITIONS :: "color \<Rightarrow> int" where
  "HOME_ENTRY_POSITIONS Red = 51"
| "HOME_ENTRY_POSITIONS Blue = 12"
| "HOME_ENTRY_POSITIONS Green = 25"
| "HOME_ENTRY_POSITIONS Yellow = 38"

definition SAFE_POSITIONS :: "int list" where
  "SAFE_POSITIONS = [0, 8, 13, 21, 26, 34, 39, 47]"


definition getStartPosition :: "color \<Rightarrow> int" where
  "getStartPosition c = PLAYER_START_POSITIONS c"

definition isSafePosition :: "int \<Rightarrow> bool" where
  "isSafePosition p = List.member SAFE_POSITIONS p"


section \<open>Data model\<close>

text \<open>
  Pieces, players and the game state are the object literals the code builds. The
  field \<open>id\<close> of a piece is \<open>piece_id\<close> here and the field \<open>id\<close> of a player is
  \<open>pid\<close>; \<open>connected\<close> is \<open>connected_flag\<close>. A player created through the HTTP join
  route has no \<open>uuid\<close>, a player that never joined over a socket has no \<open>socketId\<close>,
  and the two statistics fields exist only once \<open>executeMove\<close> has written them: these
  are options. Display names, timestamps and the move history (a log that no decision
  reads) are left out.
\<close>

record piece =
  piece_id :: string
  playerId :: string
  playerColor :: color
  pieceNumber :: nat
  position :: int
  isSafe :: bool

record player =
  pid :: string
  uuid :: "string option"
  isHost :: bool
  isAI :: bool
  color :: color
  connected_flag :: bool
  socketId :: "string option"
  piecesHome :: "nat option"
  piecesFinished :: "nat option"

datatype phase = Waiting | Playing | Finished | Abandoned

record dice_roll =
  roll_playerId :: string
  roll_value :: int

record game_state =
  players :: "player list"
  pieces :: "piece list"
  currentTurn :: nat
  gamePhase :: phase
  winner :: "string option"
  lastDiceRoll :: "dice_roll option"

record move =
  pieceId :: string
  fromPosition :: int
  toPosition :: int
  willCutPieces :: bool
  cutPieces :: "piece list"

record move_result =
  res_gameState :: game_state
  res_cutPieces :: "piece list"
  movedPiece :: piece

datatype error =
    Piece_not_found
  | Player_not_found
  | Invalid_move
  | Invalid_game_state
  | Not_your_turn
  | Game_is_not_in_playing_state
  | Invalid_dice_value_or_dice_not_rolled
  | TypeError
  | Not_a_number

text \<open>\<open>Array.prototype.findIndex\<close>: the first index whose element passes, if any.\<close>

fun findIndex :: "('a \<Rightarrow> bool) \<Rightarrow> 'a list \<Rightarrow> nat option" where
  "findIndex P [] = None"
| "findIndex P (x # xs) =
     (if P x then Some 0 else map_option Suc (findIndex P xs))"

section \<open>Rules engine (ludoRules)\<close>

definition getNextPosition :: "int \<Rightarrow> int \<Rightarrow> color \<Rightarrow> int" where
  "getNextPosition currentPosition steps playerColor' =
     (if currentPosition = HOME_POSITION then
        (if steps = 6 then getStartPosition playerColor' else HOME_POSITION)
      else if currentPosition \<ge> FINISH_START then
        (let newPosition = currentPosition + steps
         in if newPosition \<le> FINISH_END then newPosition else currentPosition)
      else
        (let startPos = getStartPosition playerColor';
             totalSteps = (if currentPosition \<ge> startPos then currentPosition - startPos
                           else (BOARD_SIZE - startPos) + currentPosition);
             newTotalSteps = totalSteps + steps
         in if newTotalSteps \<ge> BOARD_SIZE - 1 then
              FINISH_START + (newTotalSteps - (BOARD_SIZE - 1))
            else
              (let newPosition = currentPosition + steps
               in if newPosition \<ge> BOARD_SIZE then newPosition - BOARD_SIZE
                  else newPosition)))"

definition isValidMove :: "piece \<Rightarrow> int \<Rightarrow> game_state \<Rightarrow> color \<Rightarrow> bool" where
  "isValidMove pc steps gameState playerColor' =
     (if position pc = HOME_POSITION \<and> steps \<noteq> 6 then False
      else
        (let newPosition = getNextPosition (position pc) steps playerColor'
         in if newPosition = position pc then False
            else if list_ex (\<lambda>p. position p = newPosition \<and> playerColor p = playerColor'
                                  \<and> piece_id p \<noteq> piece_id pc) (pieces gameState)
                 then False
            else True))"

definition getPiecesCutByMove :: "int \<Rightarrow> color \<Rightarrow> game_state \<Rightarrow> piece list" where
  "getPiecesCutByMove newPosition movingPlayerColor gameState =
     (if isSafePosition newPosition then []
      else if newPosition \<ge> FINISH_START then []
      else filter (\<lambda>p. position p = newPosition \<and> playerColor p \<noteq> movingPlayerColor)
             (pieces gameState))"

text \<open>
  One turn of the \<open>cutPieces.forEach\<close> loop of \<open>executeMove\<close>: the first piece of the
  copied state that carries the cut piece's id goes home.
\<close>

definition sendHome :: "piece list \<Rightarrow> piece \<Rightarrow> piece list" where
  "sendHome ps cutPiece =
     (case findIndex (\<lambda>p. piece_id p = piece_id cutPiece) ps of
        None \<Rightarrow> ps
      | Some cutPieceIndex \<Rightarrow>
          ps[cutPieceIndex := (ps ! cutPieceIndex)\<lparr>position := HOME_POSITION, isSafe := False\<rparr>])"

text \<open>The statistics update at the end of \<open>executeMove\<close>.\<close>

definition updateStats :: "string \<Rightarrow> piece list \<Rightarrow> player list \<Rightarrow> player list" where
  "updateStats playerId' ps pls =
     (case findIndex (\<lambda>p. pid p = playerId') pls of
        None \<Rightarrow> pls
      | Some playerIndex \<Rightarrow>
          (let playerPieces = filter (\<lambda>p. playerId p = playerId') ps
           in pls[playerIndex := (pls ! playerIndex)
                \<lparr>piecesHome :=
                   Some (length (filter (\<lambda>p. position p = HOME_POSITION) playerPieces)),
                 piecesFinished :=
                   Some (length (filter (\<lambda>p. position p = FINISH_END) playerPieces))\<rparr>]))"

text \<open>
  \<open>executeMove\<close> works on a deep copy and throws on a missing piece, a missing player
  and an invalid move; the three throws are the \<open>Inl\<close> results. \<open>movedPiece\<close> is the
  piece object of the copy, so it shows the position after the move.
\<close>

definition executeMove :: "game_state \<Rightarrow> string \<Rightarrow> string \<Rightarrow> int \<Rightarrow> error + move_result" where
  "executeMove gameState playerId' pieceId' steps =
     (case findIndex (\<lambda>p. piece_id p = pieceId') (pieces gameState) of
        None \<Rightarrow> Inl Piece_not_found
      | Some pieceIndex \<Rightarrow>
          (let pc = pieces gameState ! pieceIndex
           in case find (\<lambda>p. pid p = playerId') (players gameState) of
                None \<Rightarrow> Inl Player_not_found
              | Some pl \<Rightarrow>
                  if \<not> isValidMove pc steps gameState (color pl) then Inl Invalid_move
                  else
                    (let newPosition = getNextPosition (position pc) steps (color pl);
                         cutPs = getPiecesCutByMove newPosition (color pl) gameState;
                         ps1 = foldl sendHome (pieces gameState) cutPs;
                         ps2 = ps1[pieceIndex := (ps1 ! pieceIndex)
                                 \<lparr>position := newPosition,
                                  isSafe := isSafePosition newPosition\<rparr>];
                         pls = updateStats playerId' ps2 (players gameState)
                     in Inr \<lparr>res_gameState = gameState\<lparr>players := pls, pieces := ps2\<rparr>,
                             res_cutPieces = cutPs,
                             movedPiece = ps2 ! pieceIndex\<rparr>)))"

definition checkWinCondition :: "game_state \<Rightarrow> string \<Rightarrow> bool" where
  "checkWinCondition gameState playerId' =
     list_all (\<lambda>p. position p = FINISH_END)
       (filter (\<lambda>p. playerId p = playerId') (pieces gameState))"

definition mkMove :: "game_state \<Rightarrow> color \<Rightarrow> int \<Rightarrow> piece \<Rightarrow> move" where
  "mkMove gameState c diceValue pc =
     (let newPosition = getNextPosition (position pc) diceValue c;
          cutPs = getPiecesCutByMove newPosition c gameState
      in \<lparr>pieceId = piece_id pc, fromPosition = position pc, toPosition = newPosition,
          willCutPieces = (length cutPs > 0), cutPieces = cutPs\<rparr>)"

definition getValidMoves :: "game_state \<Rightarrow> string \<Rightarrow> int \<Rightarrow> move list" where
  "getValidMoves gameState playerId' diceValue =
     (case find (\<lambda>p. pid p = playerId') (players gameState) of
        None \<Rightarrow> []
      | Some pl \<Rightarrow>
          map (mkMove gameState (color pl) diceValue)
            (filter (\<lambda>pc. isValidMove pc diceValue gameState (color pl))
               (filter (\<lambda>p. playerId p = playerId') (pieces gameState))))"

definition getAnotherTurn :: "int \<Rightarrow> piece list \<Rightarrow> bool" where
  "getAnotherTurn diceValue cutPs = (diceValue = 6 \<or> length cutPs > 0)"

text \<open>
  \<open>getNextPlayerTurn\<close>: the \<open>while\<close> loop that skips disconnected players, with its
  attempt counter. With a non-empty array the index is a remainder modulo the length
  and always in range. With an empty array the remainder is \<open>NaN\<close>: when disconnected
  players are skipped, \<open>players[NaN]\<close> is \<open>undefined\<close> and reading \<open>.connected\<close> of it
  throws a TypeError; otherwise the function returns \<open>NaN\<close>, which is no index and is
  the result \<open>Inl Not_a_number\<close> here.
\<close>

function skipDisconnectedLoop :: "player list \<Rightarrow> nat \<Rightarrow> nat \<Rightarrow> nat" where
  "skipDisconnectedLoop pls nextTurn attempts =
     (if \<not> connected_flag (pls ! nextTurn) \<and> attempts < length pls
      then skipDisconnectedLoop pls ((nextTurn + 1) mod length pls) (attempts + 1)
      else nextTurn)"
  by pat_completeness auto
termination
  by (relation "measure (\<lambda>(pls, nextTurn, attempts). length pls - attempts)") auto

declare skipDisconnectedLoop.simps [simp del]

definition getNextPlayerTurn :: "nat \<Rightarrow> player list \<Rightarrow> bool \<Rightarrow> error + nat" where
  "getNextPlayerTurn currentTurn' pls skipDisconnected =
     (if pls = [] then (if skipDisconnected then Inl TypeError else Inl Not_a_number)
      else
        (let nextTurn = (currentTurn' + 1) mod length pls
         in if skipDisconnected then Inr (skipDisconnectedLoop pls nextTurn 0)
            else Inr nextTurn))"

text \<open>
  \<open>initializeGamePieces\<close>: four pieces per player, all at home, with the identifier
  \<open>`${player.id}_piece_${i}`\<close> for \<open>i = 1..4\<close>.
\<close>

definition pieceNumberString :: "nat \<Rightarrow> string" where
  "pieceNumberString i = [''01234'' ! i]"

definition initializeGamePieces :: "player list \<Rightarrow> piece list" where
  "initializeGamePieces pls =
     concat (map (\<lambda>pl. map (\<lambda>i. \<lparr>piece_id = pid pl @ ''_piece_'' @ pieceNumberString i,
                                    playerId = pid pl, playerColor = color pl,
                                    pieceNumber = i, position = HOME_POSITION,
                                    isSafe = False\<rparr>) [1, 2, 3, 4]) pls)"

text \<open>
  \<open>rollDice\<close>. Its argument is the value of the product \<open>Math.random() * DICE_MAX\<close> as
  the engine computes it, a number from 0 up to but not including 6; the rounding of
  that product happens before this function and is not part of it.
\<close>

definition rollDice :: "real \<Rightarrow> int" where
  "rollDice scaled = \<lfloor>scaled\<rfloor> + DICE_MIN"

section \<open>Game state manager (gameStateManager)\<close>

datatype validation_error =
    Not_enough_players
  | Too_many_players
  | Duplicate_player_colors
  | Invalid_number_of_pieces
  | Invalid_current_turn_index
  | Invalid_game_phase

definition validateGameState :: "game_state \<Rightarrow> validation_error list" where
  "validateGameState gs =
     (if length (players gs) < MIN_PLAYERS then [Not_enough_players] else []) @
     (if length (players gs) > MAX_PLAYERS then [Too_many_players] else []) @
     (if length (map color (players gs)) \<noteq> length (remdups (map color (players gs)))
      then [Duplicate_player_colors] else []) @
     (if length (pieces gs) \<noteq> length (players gs) * PIECES_PER_PLAYER
      then [Invalid_number_of_pieces] else []) @
     (if currentTurn gs \<ge> length (players gs) then [Invalid_current_turn_index] else []) @
     (if \<not> List.member [Waiting, Playing, Finished] (gamePhase gs)
      then [Invalid_game_phase] else [])"

record roll_result =
  rr_gameState :: game_state
  rr_diceValue :: int
  rr_validMoves :: "move list"

text \<open>
  \<open>handleDiceRoll\<close>; the last argument is the product that \<open>rollDice\<close> rounds down.
\<close>

definition handleDiceRoll :: "game_state \<Rightarrow> string \<Rightarrow> real \<Rightarrow> error + roll_result" where
  "handleDiceRoll gs playerId' scaled =
     (if length (validateGameState gs) > 0 then Inl Invalid_game_state
      else
        (let currentPlayer = players gs ! currentTurn gs
         in if pid currentPlayer \<noteq> playerId' then Inl Not_your_turn
            else if gamePhase gs \<noteq> Playing then Inl Game_is_not_in_playing_state
            else
              (let diceValue = rollDice scaled;
                   newGameState = gs\<lparr>lastDiceRoll :=
                     Some \<lparr>roll_playerId = playerId', roll_value = diceValue\<rparr>\<rparr>
               in Inr \<lparr>rr_gameState = newGameState, rr_diceValue = diceValue,
                       rr_validMoves = getValidMoves newGameState playerId' diceValue\<rparr>)))"

text \<open>
  \<open>handlePieceMove\<close>. The object \<open>moveResult.gameState\<close> is the very state the function
  goes on to change, so the returned \<open>moveResult\<close> shows the final state.
\<close>

record piece_move_result =
  pm_gameState :: game_state
  pm_moveResult :: move_result
  getsAnotherTurn :: bool
  gameFinished :: bool

definition handlePieceMove ::
  "game_state \<Rightarrow> string \<Rightarrow> string \<Rightarrow> int \<Rightarrow> error + piece_move_result" where
  "handlePieceMove gs playerId' pieceId' diceValue =
     (if length (validateGameState gs) > 0 then Inl Invalid_game_state
      else
        (let currentPlayer = players gs ! currentTurn gs
         in if pid currentPlayer \<noteq> playerId' then Inl Not_your_turn
            else if gamePhase gs \<noteq> Playing then Inl Game_is_not_in_playing_state
            else if (case lastDiceRoll gs of
                       None \<Rightarrow> True
                     | Some r \<Rightarrow> roll_playerId r \<noteq> playerId' \<or> roll_value r \<noteq> diceValue)
                 then Inl Invalid_dice_value_or_dice_not_rolled
            else
              (case executeMove gs playerId' pieceId' diceValue of
                 Inl e \<Rightarrow> Inl e
               | Inr moveResult \<Rightarrow>
                   (let g1 = res_gameState moveResult;
                        g2 = (if checkWinCondition g1 playerId'
                              then g1\<lparr>gamePhase := Finished, winner := Some playerId'\<rparr>
                              else g1);
                        another = getAnotherTurn diceValue (res_cutPieces moveResult)
                    in case (if \<not> another \<and> gamePhase g2 = Playing
                             then (case getNextPlayerTurn (currentTurn g2) (players g2) True of
                                     Inl e \<Rightarrow> Inl e
                                   | Inr t \<Rightarrow> Inr (g2\<lparr>currentTurn := t\<rparr>))
                             else Inr g2) of
                         Inl e \<Rightarrow> Inl e
                       | Inr g3 \<Rightarrow>
                           (let g4 = g3\<lparr>lastDiceRoll := None\<rparr>
                            in Inr \<lparr>pm_gameState = g4,
                                    pm_moveResult = moveResult\<lparr>res_gameState := g4\<rparr>,
                                    getsAnotherTurn = another,
                                    gameFinished = (gamePhase g4 = Finished)\<rparr>)))))"

section \<open>Move selector (aiPlayer)\<close>








text \<open>
  The state \<open>evaluateMove\<close> builds to test for a win: a copy in which the first piece
  with the move's identifier stands on the move's destination.
\<close>

definition tempGameState :: "game_state \<Rightarrow> move \<Rightarrow> game_state" where
  "tempGameState gs m =
     (case findIndex (\<lambda>p. piece_id p = pieceId m) (pieces gs) of
        None \<Rightarrow> gs
      | Some i \<Rightarrow> gs\<lparr>pieces := (pieces gs)[i := (pieces gs ! i)\<lparr>position := toPosition m\<rparr>]\<rparr>)"

definition winsGame :: "game_state \<Rightarrow> string \<Rightarrow> move \<Rightarrow> bool" where
  "winsGame gs playerId' m = checkWinCondition (tempGameState gs m) playerId'"







section \<open>Room handlers (server)\<close>

text \<open>
  A room of the server's \<open>gameRooms\<close> table. \<open>room.players\<close> and
  \<open>room.gameStateData.players\<close> are one and the same array (every code path that
  creates the game data stores the room's array in it), so a change of a player shows
  in both; \<open>setPlayers\<close> writes both. \<open>room.gameState\<close> is \<open>room_gameState\<close>.
\<close>

record room =
  maxPlayers :: nat
  room_players :: "player list"
  room_gameState :: phase
  gameStateData :: "game_state option"

record socket =
  socket_id :: string
  socket_roomId :: "string option"
  socket_playerId :: "string option"

datatype server_error =
    Room_not_found
  | Player_already_connected_from_another_session
  | Game_already_in_progress
  | Room_is_full
  | Maximum_human_players_reached
  | Game_is_not_in_playing_state_s
  | Not_your_turn_s
  | You_have_already_rolled_the_dice_this_turn
  | You_must_roll_the_dice_first
  | Invalid_dice_value
  | Piece_not_found_s
  | This_piece_does_not_belong_to_you
  | Need_a_6_to_move_piece_out_of_home

datatype response =
    Error server_error
  | RoomData room
  | DiceValue int
  | Success int

definition setPlayers :: "room \<Rightarrow> player list \<Rightarrow> room" where
  "setPlayers r pls =
     r\<lparr>room_players := pls,
       gameStateData := map_option (\<lambda>g. g\<lparr>players := pls\<rparr>) (gameStateData r)\<rparr>"

text \<open>A string field is truthy when it is present and not empty.\<close>

definition truthy :: "string option \<Rightarrow> bool" where
  "truthy s = (case s of None \<Rightarrow> False | Some t \<Rightarrow> t \<noteq> [])"

definition ensureGameStateData :: "room \<Rightarrow> room" where
  "ensureGameStateData r =
     (case gameStateData r of
        Some g \<Rightarrow> r
      | None \<Rightarrow>
          r\<lparr>gameStateData :=
              Some \<lparr>players = room_players r,
                    pieces = initializeGamePieces (room_players r),
                    currentTurn = 0, gamePhase = room_gameState r,
                    winner = None, lastDiceRoll = None\<rparr>\<rparr>)"

definition on_joinRoom ::
  "(string \<rightharpoonup> room) \<Rightarrow> socket \<Rightarrow> string \<Rightarrow> string
     \<Rightarrow> (string \<rightharpoonup> room) \<times> socket \<times> response" where
  "on_joinRoom gameRooms sock roomId playerId' =
     (case gameRooms roomId of
        None \<Rightarrow> (gameRooms, sock, Error Room_not_found)
      | Some room0 \<Rightarrow>
          (let r = ensureGameStateData room0;
               rooms1 = gameRooms(roomId \<mapsto> r);
               joined = sock\<lparr>socket_roomId := Some roomId, socket_playerId := Some playerId'\<rparr>
           in case findIndex (\<lambda>p. pid p = playerId' \<or> uuid p = Some playerId') (room_players r) of
                Some i \<Rightarrow>
                  (let pl = room_players r ! i
                   in if connected_flag pl \<and> truthy (socketId pl)
                         \<and> socketId pl \<noteq> Some (socket_id sock)
                      then (rooms1, sock, Error Player_already_connected_from_another_session)
                      else
                        (let r' = setPlayers r ((room_players r)
                                    [i := pl\<lparr>connected_flag := True,
                                             socketId := Some (socket_id sock)\<rparr>])
                         in (gameRooms(roomId \<mapsto> r'), joined, RoomData r')))
              | None \<Rightarrow>
                  if room_gameState r \<noteq> Waiting
                  then (rooms1, sock, Error Game_already_in_progress)
                  else if length (room_players r) \<ge> maxPlayers r
                  then (rooms1, sock, Error Room_is_full)
                  else if length (filter (\<lambda>p. \<not> isAI p) (room_players r)) \<ge> maxPlayers r
                  then (rooms1, sock, Error Maximum_human_players_reached)
                  else
                    (let usedColors = map color (room_players r);
                         availableColor = find (\<lambda>c. \<not> List.member usedColors c) PLAYER_COLORS;
                         pl = \<lparr>pid = playerId', uuid = Some playerId', isHost = False,
                               isAI = False,
                               color = (case availableColor of Some c \<Rightarrow> c | None \<Rightarrow> Red),
                               connected_flag = True, socketId = Some (socket_id sock),
                               piecesHome = None, piecesFinished = None\<rparr>;
                         pls = room_players r @ [pl];
                         r' = r\<lparr>room_players := pls,
                                gameStateData :=
                                  map_option (\<lambda>g. g\<lparr>players := pls,
                                                      pieces := initializeGamePieces pls\<rparr>)
                                    (gameStateData r)\<rparr>
                     in (gameRooms(roomId \<mapsto> r'), joined, RoomData r'))))"

text \<open>
  The guard shared by \<open>rollDice\<close> and \<open>movePiece\<close>: the room and its game data must both
  be in the playing phase, and the caller must be the player at \<open>currentTurn\<close> (by
  \<open>id\<close> or by \<open>uuid\<close>).
\<close>

definition playingData :: "room \<Rightarrow> game_state option" where
  "playingData r =
     (if room_gameState r \<noteq> Playing then None
      else case gameStateData r of
             None \<Rightarrow> None
           | Some g \<Rightarrow> if gamePhase g \<noteq> Playing then None else Some g)"

definition isCurrentPlayer :: "game_state \<Rightarrow> string \<Rightarrow> bool" where
  "isCurrentPlayer g playerId' =
     (currentTurn g < length (players g)
      \<and> \<not> (pid (players g ! currentTurn g) \<noteq> playerId'
            \<and> uuid (players g ! currentTurn g) \<noteq> Some playerId'))"

text \<open>
  \<open>rollDice\<close>. The handler rounds the product \<open>Math.random() * 6\<close> down itself; the value
  of that product is the last argument.
\<close>

definition on_rollDice ::
  "(string \<rightharpoonup> room) \<Rightarrow> string \<Rightarrow> string \<Rightarrow> real \<Rightarrow> (string \<rightharpoonup> room) \<times> response" where
  "on_rollDice gameRooms roomId playerId' scaled =
     (case gameRooms roomId of
        None \<Rightarrow> (gameRooms, Error Room_not_found)
      | Some r \<Rightarrow>
          (case playingData r of
             None \<Rightarrow> (gameRooms, Error Game_is_not_in_playing_state_s)
           | Some g \<Rightarrow>
               if \<not> isCurrentPlayer g playerId' then (gameRooms, Error Not_your_turn_s)
               else if (case lastDiceRoll g of
                          None \<Rightarrow> False
                        | Some lr \<Rightarrow> roll_playerId lr = playerId')
               then (gameRooms, Error You_have_already_rolled_the_dice_this_turn)
               else
                 (let diceValue = \<lfloor>scaled\<rfloor> + 1;
                      g' = g\<lparr>lastDiceRoll :=
                             Some \<lparr>roll_playerId = playerId', roll_value = diceValue\<rparr>\<rparr>
                  in (gameRooms(roomId \<mapsto> r\<lparr>gameStateData := Some g'\<rparr>),
                      DiceValue diceValue))))"

text \<open>
  \<open>movePiece\<close>. The handler computes the destination itself: out of home on a six,
  otherwise forward by the dice value, subtracting 52 from 52 on
  (\<open>movePieceDestination\<close>); it then writes the piece, clears the roll and passes the
  turn unless the roll was a six (\<open>movePieceApply\<close>).
\<close>

definition movePieceDestination :: "piece \<Rightarrow> player \<Rightarrow> int \<Rightarrow> int" where
  "movePieceDestination pc currentPlayer diceValue =
     (if position pc = HOME_POSITION
      then PLAYER_START_POSITIONS (color currentPlayer)
      else if position pc + diceValue \<ge> 52
      then position pc + diceValue - 52
      else position pc + diceValue)"

definition movePieceApply :: "game_state \<Rightarrow> nat \<Rightarrow> int \<Rightarrow> int \<Rightarrow> game_state" where
  "movePieceApply g i newPosition diceValue =
     g\<lparr>pieces := (pieces g)[i := (pieces g ! i)
                    \<lparr>position := newPosition,
                     isSafe := List.member [0, 8, 13, 21, 26, 34, 39, 47] newPosition\<rparr>],
       lastDiceRoll := None,
       currentTurn := (if diceValue \<noteq> 6
                       then (currentTurn g + 1) mod length (players g)
                       else currentTurn g)\<rparr>"

definition on_movePiece ::
  "(string \<rightharpoonup> room) \<Rightarrow> string \<Rightarrow> string \<Rightarrow> string \<Rightarrow> int
     \<Rightarrow> (string \<rightharpoonup> room) \<times> response" where
  "on_movePiece gameRooms roomId playerId' pieceId' diceValue =
     (case gameRooms roomId of
        None \<Rightarrow> (gameRooms, Error Room_not_found)
      | Some r \<Rightarrow>
          (case playingData r of
             None \<Rightarrow> (gameRooms, Error Game_is_not_in_playing_state_s)
           | Some g \<Rightarrow>
               if \<not> isCurrentPlayer g playerId' then (gameRooms, Error Not_your_turn_s)
               else if (case lastDiceRoll g of
                          None \<Rightarrow> True
                        | Some lr \<Rightarrow> roll_playerId lr \<noteq> playerId')
               then (gameRooms, Error You_must_roll_the_dice_first)
               else if map_option roll_value (lastDiceRoll g) \<noteq> Some diceValue
               then (gameRooms, Error Invalid_dice_value)
               else
                 (case findIndex (\<lambda>p. piece_id p = pieceId') (pieces g) of
                    None \<Rightarrow> (gameRooms, Error Piece_not_found_s)
                  | Some i \<Rightarrow>
                      (let pc = pieces g ! i;
                           currentPlayer = players g ! currentTurn g
                       in if playerId pc \<noteq> playerId'
                          then (gameRooms, Error This_piece_does_not_belong_to_you)
                          else if position pc = HOME_POSITION \<and> diceValue \<noteq> 6
                          then (gameRooms, Error Need_a_6_to_move_piece_out_of_home)
                          else
                            (let newPosition = movePieceDestination pc currentPlayer diceValue;
                                 g' = movePieceApply g i newPosition diceValue
                             in (gameRooms(roomId \<mapsto> r\<lparr>gameStateData := Some g'\<rparr>),
                                 Success newPosition))))))"

section \<open>The position invariant\<close>

text \<open>
  The predicate of claim C9 on one position: home, a path cell at most 50 steps from
  the colour's start (counted the way \<open>getNextPosition\<close> counts \<open>totalSteps\<close>), or a
  finish cell.
\<close>

definition stepsFromStart :: "color \<Rightarrow> int \<Rightarrow> int" where
  "stepsFromStart c pos =
     (if pos \<ge> getStartPosition c then pos - getStartPosition c
      else (BOARD_SIZE - getStartPosition c) + pos)"

definition positionInRange :: "color \<Rightarrow> int \<Rightarrow> bool" where
  "positionInRange c pos =
     (pos = HOME_POSITION
      \<or> (0 \<le> pos \<and> pos \<le> 51 \<and> stepsFromStart c pos \<le> 50)
      \<or> (FINISH_START \<le> pos \<and> pos \<le> FINISH_END))"

definition piecesInRange :: "game_state \<Rightarrow> bool" where
  "piecesInRange gs = list_all (\<lambda>p. positionInRange (playerColor p) (position p)) (pieces gs)"

section \<open>Sample states\<close>

text \<open>
  A red human player \<open>p1\<close> and a blue computer player \<open>p2\<close>, with pieces named and
  coloured the way \<open>initializeGamePieces\<close> names them, standing on given cells.
\<close>

definition red_player :: player where
  "red_player = \<lparr>pid = ''p1'', uuid = Some ''p1'', isHost = True, isAI = False, color = Red,
                 connected_flag = True, socketId = None, piecesHome = None,
                 piecesFinished = None\<rparr>"

definition blue_player :: player where
  "blue_player = \<lparr>pid = ''p2'', uuid = Some ''p2'', isHost = False, isAI = True, color = Blue,
                  connected_flag = True, socketId = None, piecesHome = None,
                  piecesFinished = None\<rparr>"

definition offline :: "player \<Rightarrow> player" where
  "offline pl = pl\<lparr>connected_flag := False, socketId := None\<rparr>"

definition pieceAt :: "player \<Rightarrow> nat \<Rightarrow> int \<Rightarrow> piece" where
  "pieceAt pl i pos = \<lparr>piece_id = pid pl @ ''_piece_'' @ pieceNumberString i, playerId = pid pl,
                       playerColor = color pl, pieceNumber = i, position = pos,
                       isSafe = isSafePosition pos\<rparr>"

definition sampleState :: "int list \<Rightarrow> int list \<Rightarrow> game_state" where
  "sampleState rs bs =
     \<lparr>players = [red_player, blue_player],
      pieces = map (\<lambda>(i, pos). pieceAt red_player i pos) (zip [1, 2, 3, 4] rs)
               @ map (\<lambda>(i, pos). pieceAt blue_player i pos) (zip [1, 2, 3, 4] bs),
      currentTurn = 0, gamePhase = Playing, winner = None, lastDiceRoll = None\<rparr>"

text \<open>
  The sample state after a roll, and a registry holding one room with that state.
\<close>

definition rolled :: "game_state \<Rightarrow> string \<Rightarrow> int \<Rightarrow> game_state" where
  "rolled gs playerId' d = gs\<lparr>lastDiceRoll := Some \<lparr>roll_playerId = playerId', roll_value = d\<rparr>\<rparr>"

definition sampleRoom :: "game_state \<Rightarrow> room" where
  "sampleRoom gs = \<lparr>maxPlayers = 4, room_players = players gs, room_gameState = gamePhase gs,
                    gameStateData = Some gs\<rparr>"

definition sampleRooms :: "game_state \<Rightarrow> (string \<rightharpoonup> room)" where
  "sampleRooms gs = Map.empty(''ROOM01'' \<mapsto> sampleRoom gs)"

text \<open>The piece positions a registry holds for a room.\<close>

definition roomPositions :: "(string \<rightharpoonup> room) \<Rightarrow> string \<Rightarrow> int list" where
  "roomPositions gameRooms roomId =
     (case gameRooms roomId of
        None \<Rightarrow> []
      | Some r \<Rightarrow> (case gameStateData r of None \<Rightarrow> [] | Some g \<Rightarrow> map position (pieces g)))"

text \<open>
  A waiting room in which red is attached to the socket \<open>sockA\<close> and blue has no live
  connection, and a fresh socket.
\<close>

definition onlineVia :: "player \<Rightarrow> string \<Rightarrow> player" where
  "onlineVia pl s = pl\<lparr>connected_flag := True, socketId := Some s\<rparr>"

definition newSocket :: "string \<Rightarrow> socket" where
  "newSocket s = \<lparr>socket_id = s, socket_roomId = None, socket_playerId = None\<rparr>"

definition lobbyRoom :: room where
  "lobbyRoom =
     sampleRoom ((sampleState [-1, -1, -1, -1] [-1, -1, -1, -1])
       \<lparr>players := [onlineVia red_player ''sockA'', offline blue_player],
        gamePhase := Waiting\<rparr>)"

definition lobbyRooms :: "(string \<rightharpoonup> room)" where
  "lobbyRooms = Map.empty(''ROOM01'' \<mapsto> lobbyRoom)"


section \<open>Evaluating the sample states\<close>

lemmas fixture_defs =
  sampleState_def pieceAt_def red_player_def blue_player_def pieceNumberString_def

lemmas rules_defs =
  getValidMoves_def mkMove_def isValidMove_def getNextPosition_def getStartPosition_def
  getPiecesCutByMove_def isSafePosition_def SAFE_POSITIONS_def

section \<open>Winning\<close>

text \<open>
  Claim C10. \<open>checkWinCondition\<close> answers true for every player identifier that owns
  no piece of the game state, whether or not a player with that identifier exists:
  the test runs over the empty list of that identifier's pieces.
\<close>

theorem checkWinCondition_no_pieces:
  "\<forall>p \<in> set (pieces gameState). playerId p \<noteq> playerId' \<Longrightarrow>
   checkWinCondition gameState playerId'"
  by (simp add: checkWinCondition_def list_all_iff)

text \<open>The identifier \<open>ghost\<close> names no player of the sample state and owns no piece.\<close>

theorem checkWinCondition_no_pieces_witness:
  "filter (\<lambda>p. playerId p = ''ghost'') (pieces (sampleState [0, 5, -1, 57] [13, -1, -1, -1])) = []
   \<and> checkWinCondition (sampleState [0, 5, -1, 57] [13, -1, -1, -1]) ''ghost''
   \<and> find (\<lambda>p. pid p = ''ghost'') (players (sampleState [0, 5, -1, 57] [13, -1, -1, -1])) = None"
  using checkWinCondition_no_pieces [of "sampleState [0, 5, -1, 57] [13, -1, -1, -1]" "''ghost''"]
  by (simp add: sampleState_def pieceAt_def red_player_def blue_player_def)

section \<open>Leaving home\<close>

lemma same_id_same_piece:
  "distinct (map piece_id ps) \<Longrightarrow> p \<in> set ps \<Longrightarrow> q \<in> set ps \<Longrightarrow> piece_id p = piece_id q
   \<Longrightarrow> p = q"
  by (auto simp: distinct_map dest: inj_onD)

lemma getValidMoves_has_move:
  assumes "find (\<lambda>p. pid p = playerId') (players gs) = Some pl"
    and "distinct (map piece_id (pieces gs))"
    and "pc \<in> set (pieces gs)" and "playerId pc = playerId'"
  shows "(\<exists>m \<in> set (getValidMoves gs playerId' d). pieceId m = piece_id pc)
         \<longleftrightarrow> isValidMove pc d gs (color pl)"
proof
  assume "\<exists>m \<in> set (getValidMoves gs playerId' d). pieceId m = piece_id pc"
  then obtain q where q: "q \<in> set (pieces gs)" "isValidMove q d gs (color pl)"
      "piece_id q = piece_id pc"
    using assms(1) by (auto simp: getValidMoves_def mkMove_def Let_def)
  with assms have "q = pc" by (metis same_id_same_piece)
  with q show "isValidMove pc d gs (color pl)" by simp
next
  assume "isValidMove pc d gs (color pl)"
  with assms show "\<exists>m \<in> set (getValidMoves gs playerId' d). pieceId m = piece_id pc"
    by (auto simp: getValidMoves_def mkMove_def Let_def intro!: bexI [of _ pc])
qed

lemma getValidMoves_move_of:
  assumes "find (\<lambda>p. pid p = playerId') (players gs) = Some pl"
    and "distinct (map piece_id (pieces gs))"
    and "pc \<in> set (pieces gs)"
    and "m \<in> set (getValidMoves gs playerId' d)" and "pieceId m = piece_id pc"
  shows "m = mkMove gs (color pl) d pc"
proof -
  from assms(1,4) obtain q where q: "q \<in> set (pieces gs)" "m = mkMove gs (color pl) d q"
    by (auto simp: getValidMoves_def)
  with assms(5) have "piece_id q = piece_id pc" by (simp add: mkMove_def Let_def)
  with assms q have "q = pc" by (metis same_id_same_piece)
  with q show ?thesis by simp
qed

lemma isValidMove_home:
  "position pc = HOME_POSITION \<Longrightarrow>
   isValidMove pc d gs c \<longleftrightarrow>
     (d = 6 \<and> \<not> (\<exists>p \<in> set (pieces gs). position p = getStartPosition c \<and> playerColor p = c
                    \<and> piece_id p \<noteq> piece_id pc))"
  by (cases c) (auto simp: isValidMove_def getNextPosition_def getStartPosition_def list_ex_iff)

text \<open>
  Claim C4, as the code has it. Take a player of the game state, pieces with distinct
  identifiers, and a piece of that player standing at home. \<open>getValidMoves\<close> holds a
  move for the piece exactly when the roll is 6 and no other piece of the player's
  colour stands on that colour's start cell; such a move goes from home to exactly
  the start cell. (A six alone is not enough: rule (d), the same-colour block, applies
  to the start cell too.)
\<close>

theorem home_piece_moves_on_six:
  assumes "find (\<lambda>p. pid p = playerId') (players gs) = Some pl"
    and "distinct (map piece_id (pieces gs))"
    and "pc \<in> set (pieces gs)" and "playerId pc = playerId'"
    and "position pc = HOME_POSITION"
  shows "((\<exists>m \<in> set (getValidMoves gs playerId' d). pieceId m = piece_id pc)
          \<longleftrightarrow> (d = 6 \<and> \<not> (\<exists>p \<in> set (pieces gs). position p = getStartPosition (color pl)
                               \<and> playerColor p = color pl \<and> piece_id p \<noteq> piece_id pc)))
       \<and> (\<forall>m \<in> set (getValidMoves gs playerId' d). pieceId m = piece_id pc \<longrightarrow>
            fromPosition m = HOME_POSITION \<and> toPosition m = getStartPosition (color pl))"
proof (intro conjI ballI impI)
  show "(\<exists>m \<in> set (getValidMoves gs playerId' d). pieceId m = piece_id pc)
          \<longleftrightarrow> (d = 6 \<and> \<not> (\<exists>p \<in> set (pieces gs). position p = getStartPosition (color pl)
                               \<and> playerColor p = color pl \<and> piece_id p \<noteq> piece_id pc))"
    using getValidMoves_has_move [OF assms(1-4)] isValidMove_home [OF assms(5)] by simp
next
  fix m assume m: "m \<in> set (getValidMoves gs playerId' d)" "pieceId m = piece_id pc"
  then have eq: "m = mkMove gs (color pl) d pc"
    using getValidMoves_move_of [OF assms(1-3)] by simp
  have "isValidMove pc d gs (color pl)"
    using getValidMoves_has_move [OF assms(1-4)] m by blast
  then have "d = 6" using isValidMove_home [OF assms(5)] by simp
  with eq assms(5) show "fromPosition m = HOME_POSITION"
    by (simp add: mkMove_def Let_def)
  from eq assms(5) \<open>d = 6\<close> show "toPosition m = getStartPosition (color pl)"
    by (simp add: mkMove_def Let_def getNextPosition_def)
qed

text \<open>Red piece 2 is at home, red's start cell 0 is free, and the roll is 6.\<close>

theorem home_piece_moves_on_six_witness:
  "find (\<lambda>p. pid p = ''p1'') (players (sampleState [5, -1, -1, -1] [13, -1, -1, -1])) = Some red_player
   \<and> distinct (map piece_id (pieces (sampleState [5, -1, -1, -1] [13, -1, -1, -1])))
   \<and> pieceAt red_player 2 (-1) \<in> set (pieces (sampleState [5, -1, -1, -1] [13, -1, -1, -1]))
   \<and> (\<exists>m \<in> set (getValidMoves (sampleState [5, -1, -1, -1] [13, -1, -1, -1]) ''p1'' 6).
         pieceId m = ''p1_piece_2'' \<and> fromPosition m = -1 \<and> toPosition m = 0)"
proof -
  let ?gs = "sampleState [5, -1, -1, -1] [13, -1, -1, -1]"
  have f: "find (\<lambda>p. pid p = ''p1'') (players ?gs) = Some red_player"
    by (simp add: fixture_defs)
  have d: "distinct (map piece_id (pieces ?gs))" by (simp add: fixture_defs)
  have i: "pieceAt red_player 2 (-1) \<in> set (pieces ?gs)" by (simp add: fixture_defs)
  have o: "playerId (pieceAt red_player 2 (-1)) = ''p1''" by (simp add: fixture_defs)
  have h: "position (pieceAt red_player 2 (-1)) = HOME_POSITION" by (simp add: fixture_defs)
  have free: "\<not> (\<exists>p \<in> set (pieces ?gs). position p = getStartPosition (color red_player)
                               \<and> playerColor p = color red_player
                               \<and> piece_id p \<noteq> piece_id (pieceAt red_player 2 (-1)))"
    by (simp add: fixture_defs getStartPosition_def)
  have id: "piece_id (pieceAt red_player 2 (-1)) = ''p1_piece_2''" by (simp add: fixture_defs)
  have st: "getStartPosition (color red_player) = 0"
    by (simp add: fixture_defs getStartPosition_def)
  from home_piece_moves_on_six [OF f d i o h, of 6] free id st
  have "\<exists>m \<in> set (getValidMoves ?gs ''p1'' 6).
         pieceId m = ''p1_piece_2'' \<and> fromPosition m = -1 \<and> toPosition m = 0"
    by metis
  with f d i show ?thesis by blast
qed

text \<open>
  The claim as written fails where the start cell is taken: red piece 1 stands on cell
  0, red pieces 2 is at home, the roll is 6, and the legal moves are those of pieces
  1, 3 and 4 only.
\<close>

theorem home_piece_blocked_counterexample:
  "map position (pieces (sampleState [0, -1, 5, 9] [13, -1, -1, -1]))
     = [0, -1, 5, 9, 13, -1, -1, -1]
   \<and> map piece_id (pieces (sampleState [0, -1, 5, 9] [13, -1, -1, -1]))
     = [''p1_piece_1'', ''p1_piece_2'', ''p1_piece_3'', ''p1_piece_4'',
        ''p2_piece_1'', ''p2_piece_2'', ''p2_piece_3'', ''p2_piece_4'']
   \<and> map pieceId (getValidMoves (sampleState [0, -1, 5, 9] [13, -1, -1, -1]) ''p1'' 6)
     = [''p1_piece_1'', ''p1_piece_3'', ''p1_piece_4'']"
  by (simp add: fixture_defs rules_defs)

section \<open>Applying a move\<close>

lemma findIndex_Some:
  "findIndex P xs = Some i \<Longrightarrow> i < length xs \<and> P (xs ! i)"
  by (induction xs arbitrary: i) (auto split: if_splits)

lemma executeMove_Inr:
  assumes "executeMove gs playerId' pieceId' d = Inr res"
  obtains i pl where
    "findIndex (\<lambda>p. piece_id p = pieceId') (pieces gs) = Some i"
    "find (\<lambda>p. pid p = playerId') (players gs) = Some pl"
    "isValidMove (pieces gs ! i) d gs (color pl)"
    "res_cutPieces res =
       getPiecesCutByMove (getNextPosition (position (pieces gs ! i)) d (color pl)) (color pl) gs"
    "pieces (res_gameState res) =
       (foldl sendHome (pieces gs) (res_cutPieces res))
         [i := (foldl sendHome (pieces gs) (res_cutPieces res) ! i)
            \<lparr>position := getNextPosition (position (pieces gs ! i)) d (color pl),
             isSafe := isSafePosition (getNextPosition (position (pieces gs ! i)) d (color pl))\<rparr>]"
    "movedPiece res = pieces (res_gameState res) ! i"
  using assms
  by (auto simp: executeMove_def Let_def split: option.splits if_splits)

lemma sendHome_length [simp]: "length (sendHome ps c) = length ps"
  by (simp add: sendHome_def split: option.splits)

lemma foldl_sendHome_length [simp]: "length (foldl sendHome ps cs) = length ps"
  by (induction cs arbitrary: ps) auto

text \<open>
  Claim C5. A destination that is a declared safe cell or a finish-area cell captures
  nothing: \<open>getPiecesCutByMove\<close> returns the empty list there, and when \<open>executeMove\<close>
  moves a piece onto such a cell the list of cut pieces is empty and the returned
  pieces are the old ones with only the moved piece replaced, so a piece that stood
  on the destination still stands there.
\<close>

theorem no_capture_on_safe_or_finish:
  "(isSafePosition newPosition \<or> newPosition \<ge> FINISH_START
      \<longrightarrow> getPiecesCutByMove newPosition c gs = [])
   \<and> (executeMove gs playerId' pieceId' d = Inr res
        \<and> (isSafePosition (position (movedPiece res))
             \<or> position (movedPiece res) \<ge> FINISH_START)
      \<longrightarrow> res_cutPieces res = []
          \<and> (\<exists>i < length (pieces gs). piece_id (pieces gs ! i) = pieceId'
                \<and> pieces (res_gameState res) = (pieces gs)[i := movedPiece res]))"
proof (intro conjI impI)
  assume "isSafePosition newPosition \<or> newPosition \<ge> FINISH_START"
  then show "getPiecesCutByMove newPosition c gs = []"
    by (auto simp: getPiecesCutByMove_def)
next
  assume a: "executeMove gs playerId' pieceId' d = Inr res
        \<and> (isSafePosition (position (movedPiece res))
             \<or> position (movedPiece res) \<ge> FINISH_START)"
  then have e: "executeMove gs playerId' pieceId' d = Inr res" by simp
  obtain i pl where f: "findIndex (\<lambda>p. piece_id p = pieceId') (pieces gs) = Some i"
    and "find (\<lambda>p. pid p = playerId') (players gs) = Some pl"
    and "isValidMove (pieces gs ! i) d gs (color pl)"
    and c: "res_cutPieces res =
       getPiecesCutByMove (getNextPosition (position (pieces gs ! i)) d (color pl)) (color pl) gs"
    and p: "pieces (res_gameState res) =
       (foldl sendHome (pieces gs) (res_cutPieces res))
         [i := (foldl sendHome (pieces gs) (res_cutPieces res) ! i)
            \<lparr>position := getNextPosition (position (pieces gs ! i)) d (color pl),
             isSafe := isSafePosition (getNextPosition (position (pieces gs ! i)) d (color pl))\<rparr>]"
    and m: "movedPiece res = pieces (res_gameState res) ! i"
    by (rule executeMove_Inr [OF e])
  from f have i: "i < length (pieces gs)" "piece_id (pieces gs ! i) = pieceId'"
    using findIndex_Some by fastforce+
  from p m i have "position (movedPiece res)
      = getNextPosition (position (pieces gs ! i)) d (color pl)" by simp
  with a c show cut: "res_cutPieces res = []" by (auto simp: getPiecesCutByMove_def)
  from p m i cut have "pieces (res_gameState res) = (pieces gs)[i := movedPiece res]" by simp
  with i show "\<exists>i < length (pieces gs). piece_id (pieces gs ! i) = pieceId'
                \<and> pieces (res_gameState res) = (pieces gs)[i := movedPiece res]" by blast
qed


text \<open>Red piece 1 moves from cell 2 by 6 onto the star cell 8, where blue piece 1 stands.\<close>

theorem no_capture_on_safe_or_finish_witness:
  "\<not> isl (executeMove (sampleState [2, -1, -1, -1] [8, -1, -1, -1]) ''p1'' ''p1_piece_1'' 6)
   \<and> isSafePosition (position (movedPiece (projr
        (executeMove (sampleState [2, -1, -1, -1] [8, -1, -1, -1]) ''p1'' ''p1_piece_1'' 6))))
   \<and> res_cutPieces (projr
        (executeMove (sampleState [2, -1, -1, -1] [8, -1, -1, -1]) ''p1'' ''p1_piece_1'' 6)) = []
   \<and> map position (pieces (sampleState [2, -1, -1, -1] [8, -1, -1, -1]))
        = [2, -1, -1, -1, 8, -1, -1, -1]
   \<and> map position (pieces (res_gameState (projr
        (executeMove (sampleState [2, -1, -1, -1] [8, -1, -1, -1]) ''p1'' ''p1_piece_1'' 6))))
        = [8, -1, -1, -1, 8, -1, -1, -1]"
proof -
  let ?gs = "sampleState [2, -1, -1, -1] [8, -1, -1, -1]"
  let ?r = "projr (executeMove ?gs ''p1'' ''p1_piece_1'' 6)"
  have ok: "\<not> isl (executeMove ?gs ''p1'' ''p1_piece_1'' 6)" by code_simp
  then have e: "executeMove ?gs ''p1'' ''p1_piece_1'' 6 = Inr ?r" by simp
  have s: "isSafePosition (position (movedPiece ?r))" by code_simp
  have p0: "map position (pieces ?gs) = [2, -1, -1, -1, 8, -1, -1, -1]" by code_simp
  have p1: "map position (pieces (res_gameState ?r)) = [8, -1, -1, -1, 8, -1, -1, -1]"
    by code_simp
  from no_capture_on_safe_or_finish [of 0 Red ?gs "''p1''" "''p1_piece_1''" 6 ?r] e s
  have "res_cutPieces ?r = []" by blast
  with ok s p0 p1 show ?thesis by blast
qed

section \<open>Positions stay in range\<close>

lemma getNextPosition_in_range:
  "positionInRange c pos \<Longrightarrow> 1 \<le> d \<Longrightarrow> d \<le> 6 \<Longrightarrow> positionInRange c (getNextPosition pos d c)"
  by (cases c) (auto simp: positionInRange_def stepsFromStart_def getNextPosition_def
        getStartPosition_def Let_def)

lemma sendHome_in_range:
  "list_all (\<lambda>p. positionInRange (playerColor p) (position p)) ps \<Longrightarrow>
   list_all (\<lambda>p. positionInRange (playerColor p) (position p)) (sendHome ps c)"
  by (auto simp: sendHome_def list_all_iff positionInRange_def dest!: set_update_subset_insert [THEN subsetD]
      split: option.splits)

lemma sendHome_color:
  "i < length ps \<Longrightarrow> playerColor (sendHome ps c ! i) = playerColor (ps ! i)"
  by (auto simp: sendHome_def nth_list_update dest!: findIndex_Some split: option.splits)

lemma foldl_sendHome_in_range:
  "list_all (\<lambda>p. positionInRange (playerColor p) (position p)) ps \<Longrightarrow>
   list_all (\<lambda>p. positionInRange (playerColor p) (position p)) (foldl sendHome ps cs)"
  by (induction cs arbitrary: ps) (auto simp: sendHome_in_range)

lemma foldl_sendHome_color:
  "i < length ps \<Longrightarrow> playerColor (foldl sendHome ps cs ! i) = playerColor (ps ! i)"
  by (induction cs arbitrary: ps) (auto simp: sendHome_color)

text \<open>
  Claim C9, as the code has it. Let every piece of the state be at home, on a path cell
  at most 50 steps from its own colour's start, or on a finish cell 52..57; let the
  roll be one of 1..6, and let the moved piece carry the colour of the moving player.
  Then \<open>executeMove\<close> either throws Invalid move or returns a state in which the same
  holds and no position exceeds 57; and a finish-area piece whose step would pass
  cell 57 is not moved: the call throws Invalid move.
\<close>

theorem executeMove_keeps_positions_in_range:
  assumes inv: "piecesInRange gs"
    and d: "1 \<le> d" "d \<le> 6"
    and pl: "find (\<lambda>p. pid p = playerId') (players gs) = Some pl"
    and i: "findIndex (\<lambda>p. piece_id p = pieceId') (pieces gs) = Some i"
    and own: "playerColor (pieces gs ! i) = color pl"
  shows "(case executeMove gs playerId' pieceId' d of
            Inl e \<Rightarrow> e = Invalid_move
          | Inr res \<Rightarrow> piecesInRange (res_gameState res)
                        \<and> list_all (\<lambda>p. position p \<le> FINISH_END) (pieces (res_gameState res)))
         \<and> (if position (pieces gs ! i) \<ge> FINISH_START
                  \<and> position (pieces gs ! i) + d > FINISH_END
              then executeMove gs playerId' pieceId' d = Inl Invalid_move
              else True)"
proof -
  let ?P = "\<lambda>p. positionInRange (playerColor p) (position p)"
  let ?pc = "pieces gs ! i"
  let ?np = "getNextPosition (position ?pc) d (color pl)"
  let ?ps1 = "foldl sendHome (pieces gs) (getPiecesCutByMove ?np (color pl) gs)"
  let ?ps2 = "?ps1[i := (?ps1 ! i)\<lparr>position := ?np, isSafe := isSafePosition ?np\<rparr>]"
  from i have il: "i < length (pieces gs)" using findIndex_Some by fastforce
  from inv have all: "list_all ?P (pieces gs)" by (simp add: piecesInRange_def)
  with il have "?P ?pc" by (simp add: list_all_length)
  with own d have np: "positionInRange (color pl) ?np"
    by (simp add: getNextPosition_in_range)
  have c1: "playerColor (?ps1 ! i) = color pl"
    using il own by (simp add: foldl_sendHome_color)
  have a1: "list_all ?P ?ps1" using all by (rule foldl_sendHome_in_range)
  have a2: "list_all ?P ?ps2"
    using a1 np c1 il
    by (auto simp: list_all_iff dest!: set_update_subset_insert [THEN subsetD])
  have le: "list_all (\<lambda>p. position p \<le> FINISH_END) ?ps2"
    using a2 by (auto simp: list_all_iff positionInRange_def)
  have first: "case executeMove gs playerId' pieceId' d of
            Inl e \<Rightarrow> e = Invalid_move
          | Inr res \<Rightarrow> piecesInRange (res_gameState res)
                        \<and> list_all (\<lambda>p. position p \<le> FINISH_END) (pieces (res_gameState res))"
    using pl i a2 le by (simp add: executeMove_def Let_def piecesInRange_def)
  have second: "position ?pc \<ge> FINISH_START \<and> position ?pc + d > FINISH_END
      \<Longrightarrow> executeMove gs playerId' pieceId' d = Inl Invalid_move"
    using pl i by (simp add: executeMove_def Let_def isValidMove_def getNextPosition_def)
  from first second show ?thesis by simp
qed


text \<open>
  Red piece 1 goes from cell 50 by 6 to the terminal cell 57; red piece 4 on cell 54
  cannot take 4 steps.
\<close>

theorem executeMove_keeps_positions_in_range_witness:
  "piecesInRange (sampleState [50, -1, 56, 54] [51, 5, -1, -1])
   \<and> find (\<lambda>p. pid p = ''p1'') (players (sampleState [50, -1, 56, 54] [51, 5, -1, -1])) = Some red_player
   \<and> findIndex (\<lambda>p. piece_id p = ''p1_piece_1'') (pieces (sampleState [50, -1, 56, 54] [51, 5, -1, -1])) = Some 0
   \<and> findIndex (\<lambda>p. piece_id p = ''p1_piece_4'') (pieces (sampleState [50, -1, 56, 54] [51, 5, -1, -1])) = Some 3
   \<and> \<not> isl (executeMove (sampleState [50, -1, 56, 54] [51, 5, -1, -1]) ''p1'' ''p1_piece_1'' 6)
   \<and> piecesInRange (res_gameState (projr
        (executeMove (sampleState [50, -1, 56, 54] [51, 5, -1, -1]) ''p1'' ''p1_piece_1'' 6)))
   \<and> executeMove (sampleState [50, -1, 56, 54] [51, 5, -1, -1]) ''p1'' ''p1_piece_4'' 4
       = Inl Invalid_move"
proof -
  let ?gs = "sampleState [50, -1, 56, 54] [51, 5, -1, -1]"
  have inv: "piecesInRange ?gs" by code_simp
  have pl: "find (\<lambda>p. pid p = ''p1'') (players ?gs) = Some red_player" by code_simp
  have i0: "findIndex (\<lambda>p. piece_id p = ''p1_piece_1'') (pieces ?gs) = Some 0" by code_simp
  have i3: "findIndex (\<lambda>p. piece_id p = ''p1_piece_4'') (pieces ?gs) = Some 3" by code_simp
  have o0: "playerColor (pieces ?gs ! 0) = color red_player" by code_simp
  have o3: "playerColor (pieces ?gs ! 3) = color red_player" by code_simp
  have ok: "\<not> isl (executeMove ?gs ''p1'' ''p1_piece_1'' 6)" by code_simp
  have p3: "position (pieces ?gs ! 3) = 54" by code_simp
  from executeMove_keeps_positions_in_range [OF inv _ _ pl i0 o0, of 6] ok
  have a: "piecesInRange (res_gameState (projr (executeMove ?gs ''p1'' ''p1_piece_1'' 6)))"
    by (cases "executeMove ?gs ''p1'' ''p1_piece_1'' 6") simp_all
  from executeMove_keeps_positions_in_range [OF inv _ _ pl i3 o3, of 4] p3
  have b: "executeMove ?gs ''p1'' ''p1_piece_4'' 4 = Inl Invalid_move"
    by simp
  from inv pl i0 i3 ok a b show ?thesis by blast
qed

text \<open>
  Without the two conditions the claim fails. \<open>executeMove\<close> does not check that the
  piece belongs to the player: on a roll of 6 the red player moves blue piece 1 from
  cell 51 by red's geometry to 58. And a step count of 7 takes red piece 1 from cell
  50 to 58.
\<close>

theorem executeMove_out_of_range_counterexample:
  "piecesInRange (sampleState [50, -1, -1, -1] [51, -1, -1, -1])
   \<and> \<not> isl (executeMove (sampleState [50, -1, -1, -1] [51, -1, -1, -1]) ''p1'' ''p2_piece_1'' 6)
   \<and> map position (pieces (res_gameState (projr
        (executeMove (sampleState [50, -1, -1, -1] [51, -1, -1, -1]) ''p1'' ''p2_piece_1'' 6))))
       = [50, -1, -1, -1, 58, -1, -1, -1]
   \<and> \<not> piecesInRange (res_gameState (projr
        (executeMove (sampleState [50, -1, -1, -1] [51, -1, -1, -1]) ''p1'' ''p2_piece_1'' 6)))
   \<and> \<not> isl (executeMove (sampleState [50, -1, -1, -1] [51, -1, -1, -1]) ''p1'' ''p1_piece_1'' 7)
   \<and> map position (pieces (res_gameState (projr
        (executeMove (sampleState [50, -1, -1, -1] [51, -1, -1, -1]) ''p1'' ''p1_piece_1'' 7))))
       = [58, -1, -1, -1, 51, -1, -1, -1]
   \<and> \<not> piecesInRange (res_gameState (projr
        (executeMove (sampleState [50, -1, -1, -1] [51, -1, -1, -1]) ''p1'' ''p1_piece_1'' 7)))"
  by code_simp

section \<open>Whose turn is next\<close>

lemma skipDisconnectedLoop_finds:
  assumes "0 < length pls" and "k \<le> length pls"
    and "connected_flag (pls ! ((s + k) mod length pls))"
    and "\<forall>j. a \<le> j \<and> j < k \<longrightarrow> \<not> connected_flag (pls ! ((s + j) mod length pls))"
    and "a \<le> k"
  shows "skipDisconnectedLoop pls ((s + a) mod length pls) a = (s + k) mod length pls"
  using assms
proof (induction "k - a" arbitrary: a)
  case 0
  then have "a = k" by simp
  with 0 show ?case by (subst skipDisconnectedLoop.simps) simp
next
  case (Suc d)
  then have lt: "a < k" by simp
  with Suc.prems have nc: "\<not> connected_flag (pls ! ((s + a) mod length pls))" by simp
  from lt Suc.prems have an: "a < length pls" by simp
  have step: "((s + a) mod length pls + 1) mod length pls = (s + (a + 1)) mod length pls"
    by (simp add: mod_Suc_eq)
  have "skipDisconnectedLoop pls ((s + (a + 1)) mod length pls) (a + 1) = (s + k) mod length pls"
    using Suc.hyps Suc.prems lt by (intro Suc.hyps(1)) auto
  with nc an step show ?case by (subst skipDisconnectedLoop.simps) simp
qed

lemma skipDisconnectedLoop_none:
  assumes "0 < length pls" and "\<forall>p \<in> set pls. \<not> connected_flag p" and "a \<le> length pls"
  shows "skipDisconnectedLoop pls ((s + a) mod length pls) a = s mod length pls"
  using assms
proof (induction "length pls - a" arbitrary: a)
  case 0
  then have "a = length pls" by simp
  then show ?case by (subst skipDisconnectedLoop.simps) simp
next
  case (Suc d)
  then have an: "a < length pls" by simp
  have "(s + a) mod length pls < length pls" using Suc.prems by simp
  with Suc.prems have nc: "\<not> connected_flag (pls ! ((s + a) mod length pls))" by simp
  have step: "((s + a) mod length pls + 1) mod length pls = (s + (a + 1)) mod length pls"
    by (simp add: mod_Suc_eq)
  have "skipDisconnectedLoop pls ((s + (a + 1)) mod length pls) (a + 1) = s mod length pls"
    using Suc.hyps Suc.prems an by (intro Suc.hyps(1)) auto
  with nc an step show ?case by (subst skipDisconnectedLoop.simps) simp
qed

lemma some_offset_connected:
  assumes "p \<in> set pls" and "connected_flag p"
  shows "\<exists>k < length pls. connected_flag (pls ! ((s + k) mod length pls))"
proof -
  let ?n = "length pls"
  from assms obtain i where i: "i < ?n" "pls ! i = p" by (auto simp: in_set_conv_nth)
  from i(1) have n0: "0 < ?n" by arith
  let ?k = "(i + (?n - s mod ?n)) mod ?n"
  have kn: "?k < ?n" using n0 by (rule mod_less_divisor)
  have "(s + ?k) mod ?n = (s mod ?n + (i + (?n - s mod ?n))) mod ?n"
    by (simp only: mod_simps)
  also have "s mod ?n + (i + (?n - s mod ?n)) = i + ?n"
  proof -
    have "s mod ?n < ?n" using n0 by (rule mod_less_divisor)
    then show ?thesis by arith
  qed
  also have "(i + ?n) mod ?n = i" using i(1) by simp
  finally have "(s + ?k) mod ?n = i" .
  with i(2) assms(2) have "connected_flag (pls ! ((s + ?k) mod ?n))" by simp
  with kn show ?thesis by blast
qed

text \<open>
  Claim C6, as the code has it. For a non-empty player list and any current turn:
  when some player is connected, \<open>getNextPlayerTurn\<close> returns the first index after the
  current one, in cyclic join order, whose player is connected, having skipped only
  disconnected players; when nobody is connected, the attempt counter stops the loop
  and the result is simply the index after the current one. When the current player
  is the only connected one, the result is the current player's own index.
\<close>

theorem getNextPlayerTurn_next_connected:
  assumes "pls \<noteq> []"
  shows "(if \<exists>p \<in> set pls. connected_flag p
          then \<exists>k < length pls.
                 getNextPlayerTurn cur pls True = Inr ((cur + 1 + k) mod length pls)
                 \<and> connected_flag (pls ! ((cur + 1 + k) mod length pls))
                 \<and> (\<forall>j < k. \<not> connected_flag (pls ! ((cur + 1 + j) mod length pls)))
          else getNextPlayerTurn cur pls True = Inr ((cur + 1) mod length pls))
         \<and> (if cur < length pls \<and> connected_flag (pls ! cur)
                \<and> (\<forall>i < length pls. i \<noteq> cur \<longrightarrow> \<not> connected_flag (pls ! i))
             then getNextPlayerTurn cur pls True = Inr cur else True)"
proof -
  let ?n = "length pls"
  let ?s = "cur + 1"
  from assms have n: "0 < ?n" by simp
  have eq: "getNextPlayerTurn cur pls True = Inr (skipDisconnectedLoop pls (?s mod ?n) 0)"
    using assms by (simp add: getNextPlayerTurn_def)
  have found: "\<exists>k < ?n. getNextPlayerTurn cur pls True = Inr ((?s + k) mod ?n)
                 \<and> connected_flag (pls ! ((?s + k) mod ?n))
                 \<and> (\<forall>j < k. \<not> connected_flag (pls ! ((?s + j) mod ?n)))"
    if "\<exists>p \<in> set pls. connected_flag p"
  proof -
    from that obtain k0 where k0: "k0 < ?n" "connected_flag (pls ! ((?s + k0) mod ?n))"
      using some_offset_connected by blast
    define k where "k = (LEAST k. connected_flag (pls ! ((?s + k) mod ?n)))"
    have kc: "connected_flag (pls ! ((?s + k) mod ?n))"
      unfolding k_def using k0(2) by (rule LeastI)
    have kl: "k \<le> k0" unfolding k_def using k0(2) by (rule Least_le)
    have kn: "\<forall>j < k. \<not> connected_flag (pls ! ((?s + j) mod ?n))"
      unfolding k_def using not_less_Least by blast
    have "skipDisconnectedLoop pls ((?s + 0) mod ?n) 0 = (?s + k) mod ?n"
      using n kl k0(1) kc kn by (intro skipDisconnectedLoop_finds) auto
    with eq kc kn kl k0(1) show ?thesis by (intro exI [of _ k]) simp
  qed
  have none: "getNextPlayerTurn cur pls True = Inr (?s mod ?n)"
    if "\<not> (\<exists>p \<in> set pls. connected_flag p)"
  proof -
    have "skipDisconnectedLoop pls ((?s + 0) mod ?n) 0 = ?s mod ?n"
      using n that by (intro skipDisconnectedLoop_none) auto
    with eq show ?thesis by simp
  qed
  have sole: "getNextPlayerTurn cur pls True = Inr cur"
    if "cur < ?n \<and> connected_flag (pls ! cur)
        \<and> (\<forall>i < ?n. i \<noteq> cur \<longrightarrow> \<not> connected_flag (pls ! i))"
  proof -
    from that have "\<exists>p \<in> set pls. connected_flag p" using nth_mem by blast
    from found [OF this] obtain k where k: "getNextPlayerTurn cur pls True = Inr ((?s + k) mod ?n)"
      "connected_flag (pls ! ((?s + k) mod ?n))" by blast
    have "(?s + k) mod ?n < ?n" using n by simp
    with that k(2) have "(?s + k) mod ?n = cur" by blast
    with k(1) show ?thesis by simp
  qed
  show ?thesis
  proof (intro conjI)
    show "if \<exists>p \<in> set pls. connected_flag p
          then \<exists>k < length pls.
                 getNextPlayerTurn cur pls True = Inr ((cur + 1 + k) mod length pls)
                 \<and> connected_flag (pls ! ((cur + 1 + k) mod length pls))
                 \<and> (\<forall>j < k. \<not> connected_flag (pls ! ((cur + 1 + j) mod length pls)))
          else getNextPlayerTurn cur pls True = Inr ((cur + 1) mod length pls)"
    proof (cases "\<exists>p \<in> set pls. connected_flag p")
      case True
      with found [OF True] show ?thesis by (simp only: if_True)
    next
      case False
      with none [OF False] show ?thesis by (simp only: if_False)
    qed
    show "if cur < length pls \<and> connected_flag (pls ! cur)
                \<and> (\<forall>i < length pls. i \<noteq> cur \<longrightarrow> \<not> connected_flag (pls ! i))
             then getNextPlayerTurn cur pls True = Inr cur else True"
      using sole by simp
  qed
qed

text \<open>Red (index 0) is connected, blue is not: after red's turn it is red's turn again.\<close>

theorem getNextPlayerTurn_next_connected_witness:
  "[red_player, offline blue_player] \<noteq> []
   \<and> getNextPlayerTurn 0 [red_player, offline blue_player] True = Inr 0
   \<and> connected_flag ([red_player, offline blue_player] ! 0)
   \<and> \<not> connected_flag ([red_player, offline blue_player] ! 1)"
proof -
  let ?pls = "[red_player, offline blue_player]"
  have ne: "?pls \<noteq> []" by simp
  have c0: "connected_flag (?pls ! 0)" by code_simp
  have c1: "\<not> connected_flag (?pls ! 1)" by code_simp
  have sole: "0 < length ?pls \<and> connected_flag (?pls ! 0)
                \<and> (\<forall>i < length ?pls. i \<noteq> 0 \<longrightarrow> \<not> connected_flag (?pls ! i))"
    using c0 c1 by (auto simp: less_Suc_eq)
  have "if 0 < length ?pls \<and> connected_flag (?pls ! 0)
                \<and> (\<forall>i < length ?pls. i \<noteq> 0 \<longrightarrow> \<not> connected_flag (?pls ! i))
        then getNextPlayerTurn 0 ?pls True = Inr 0 else True"
    using getNextPlayerTurn_next_connected [OF ne, of 0] by (rule conjunct2)
  then have "getNextPlayerTurn 0 ?pls True = Inr 0"
    unfolding if_P [OF sole] .
  with ne c0 c1 show ?thesis by blast
qed

text \<open>
  With nobody connected the returned index 1 is that of a disconnected player, so the
  result is not "the next player whose connected flag is true".
\<close>

theorem getNextPlayerTurn_all_disconnected_counterexample:
  "getNextPlayerTurn 0 [offline red_player, offline blue_player] True = Inr 1
   \<and> map connected_flag [offline red_player, offline blue_player] = [False, False]"
  by code_simp

section \<open>What the server's move handler does\<close>

text \<open>
  An accepted \<open>movePiece\<close> intent: the piece found by its identifier belongs to the
  caller, the destination is \<open>movePieceDestination\<close>, and the registry holds the room
  with \<open>movePieceApply\<close> of the game data.
\<close>

lemma on_movePiece_Success:
  assumes "on_movePiece gameRooms roomId playerId' pieceId' d = (rooms', Success np)"
    and "gameRooms roomId = Some r" and "gameStateData r = Some g"
  shows "\<exists>i. findIndex (\<lambda>p. piece_id p = pieceId') (pieces g) = Some i
           \<and> playerId (pieces g ! i) = playerId'
           \<and> np = movePieceDestination (pieces g ! i) (players g ! currentTurn g) d
           \<and> rooms' = gameRooms(roomId \<mapsto> r\<lparr>gameStateData := Some (movePieceApply g i np d)\<rparr>)"
proof -
  from assms have pd: "playingData r = Some g"
    by (auto simp: on_movePiece_def playingData_def split: if_splits option.splits)
  from assms(1,2) pd show ?thesis
    by (auto simp: on_movePiece_def Let_def split: if_splits option.splits)
qed

lemma on_movePiece_stays_on_path:
  assumes "on_movePiece gameRooms roomId playerId' pieceId' d = (rooms', Success np)"
    and "gameRooms roomId = Some r" and "gameStateData r = Some g"
    and "list_all (\<lambda>p. position p \<le> FINISH_END) (pieces g)" and "d \<le> 6"
  shows "np \<le> 51"
proof -
  from on_movePiece_Success [OF assms(1-3)] obtain i where
    i: "findIndex (\<lambda>p. piece_id p = pieceId') (pieces g) = Some i"
    and np: "np = movePieceDestination (pieces g ! i) (players g ! currentTurn g) d"
    by blast
  from i have "i < length (pieces g)" using findIndex_Some by fastforce
  with assms(4) have "position (pieces g ! i) \<le> FINISH_END" by (simp add: list_all_length)
  with np assms(5) show ?thesis
    by (cases "color (players g ! currentTurn g)")
       (auto simp: movePieceDestination_def split: if_splits)
qed

lemma on_movePiece_mover_has_not_won:
  assumes "on_movePiece gameRooms roomId playerId' pieceId' d = (rooms', Success np)"
    and "gameRooms roomId = Some r" and "gameStateData r = Some g"
    and "list_all (\<lambda>p. position p \<le> FINISH_END) (pieces g)" and "d \<le> 6"
  shows "\<exists>r' g'. rooms' roomId = Some r' \<and> gameStateData r' = Some g'
           \<and> \<not> checkWinCondition g' playerId'"
proof -
  have le: "np \<le> 51" using assms by (rule on_movePiece_stays_on_path)
  from on_movePiece_Success [OF assms(1-3)] obtain i where
    i: "findIndex (\<lambda>p. piece_id p = pieceId') (pieces g) = Some i"
    and own: "playerId (pieces g ! i) = playerId'"
    and r': "rooms' = gameRooms(roomId \<mapsto> r\<lparr>gameStateData := Some (movePieceApply g i np d)\<rparr>)"
    by blast
  from i have il: "i < length (pieces g)" using findIndex_Some by fastforce
  let ?m = "(pieces g ! i)\<lparr>position := np,
               isSafe := List.member [0, 8, 13, 21, 26, 34, 39, 47] np\<rparr>"
  from il have "?m \<in> set (pieces (movePieceApply g i np d))"
    by (simp add: movePieceApply_def set_update_memI)
  moreover have "playerId ?m = playerId'" using own by simp
  ultimately have "?m \<in> set (filter (\<lambda>p. playerId p = playerId')
                               (pieces (movePieceApply g i np d)))"
    by simp
  moreover have "position ?m \<noteq> FINISH_END" using le by simp
  ultimately have "\<not> checkWinCondition (movePieceApply g i np d) playerId'"
    unfolding checkWinCondition_def list_all_iff by blast
  with r' show ?thesis by simp
qed

text \<open>
  The server handler changes the position of the moved piece only (it sends no piece
  home), and it keeps the turn exactly when the roll is a six.
\<close>

lemma on_movePiece_turn:
  assumes "on_movePiece gameRooms roomId playerId' pieceId' d = (rooms', Success np)"
    and "gameRooms roomId = Some r" and "gameStateData r = Some g"
  shows "\<exists>i < length (pieces g). \<exists>g'.
           rooms' = gameRooms(roomId \<mapsto> r\<lparr>gameStateData := Some g'\<rparr>)
           \<and> piece_id (pieces g ! i) = pieceId'
           \<and> currentTurn g' = (if d = 6 then currentTurn g
                                else (currentTurn g + 1) mod length (players g))
           \<and> map position (pieces g') = (map position (pieces g))[i := np]"
proof -
  from on_movePiece_Success [OF assms] obtain i where
    i: "findIndex (\<lambda>p. piece_id p = pieceId') (pieces g) = Some i"
    and r': "rooms' = gameRooms(roomId \<mapsto> r\<lparr>gameStateData := Some (movePieceApply g i np d)\<rparr>)"
    by blast
  from i have il: "i < length (pieces g)" "piece_id (pieces g ! i) = pieceId'"
    using findIndex_Some by fastforce+
  have t: "currentTurn (movePieceApply g i np d)
             = (if d = 6 then currentTurn g else (currentTurn g + 1) mod length (players g))"
    by (simp add: movePieceApply_def)
  have p: "map position (pieces (movePieceApply g i np d)) = (map position (pieces g))[i := np]"
    by (simp add: movePieceApply_def map_update)
  from r' il t p show ?thesis by blast
qed

text \<open>
  Landing on an opponent. Red piece 1 stands on cell 5, blue piece 1 on cell 9 (not a
  safe cell), and red has rolled 4. The server handler puts the red piece on cell 9,
  leaves the blue piece there and gives the turn to blue. In the rules engine the same
  move cuts the blue piece, and \<open>handlePieceMove\<close> sends it home and lets red keep the
  turn.
\<close>

lemma on_movePiece_lands_on_opponent:
  "snd (on_movePiece (sampleRooms (rolled (sampleState [5, -1, -1, -1] [9, -1, -1, -1]) ''p1'' 4))
          ''ROOM01'' ''p1'' ''p1_piece_1'' 4) = Success 9
   \<and> roomPositions (fst (on_movePiece
          (sampleRooms (rolled (sampleState [5, -1, -1, -1] [9, -1, -1, -1]) ''p1'' 4))
          ''ROOM01'' ''p1'' ''p1_piece_1'' 4)) ''ROOM01''
       = [9, -1, -1, -1, 9, -1, -1, -1]
   \<and> map_option currentTurn (Option.bind (fst (on_movePiece
          (sampleRooms (rolled (sampleState [5, -1, -1, -1] [9, -1, -1, -1]) ''p1'' 4))
          ''ROOM01'' ''p1'' ''p1_piece_1'' 4) ''ROOM01'') gameStateData) = Some 1
   \<and> map (\<lambda>m. (pieceId m, fromPosition m, toPosition m, map piece_id (cutPieces m)))
        (getValidMoves (rolled (sampleState [5, -1, -1, -1] [9, -1, -1, -1]) ''p1'' 4) ''p1'' 4)
       = [(''p1_piece_1'', 5, 9, [''p2_piece_1''])]
   \<and> \<not> isl (handlePieceMove (rolled (sampleState [5, -1, -1, -1] [9, -1, -1, -1]) ''p1'' 4)
               ''p1'' ''p1_piece_1'' 4)
   \<and> map position (pieces (pm_gameState (projr
        (handlePieceMove (rolled (sampleState [5, -1, -1, -1] [9, -1, -1, -1]) ''p1'' 4)
               ''p1'' ''p1_piece_1'' 4))))
       = [9, -1, -1, -1, -1, -1, -1, -1]
   \<and> getsAnotherTurn (projr
        (handlePieceMove (rolled (sampleState [5, -1, -1, -1] [9, -1, -1, -1]) ''p1'' 4)
               ''p1'' ''p1_piece_1'' 4))
   \<and> currentTurn (pm_gameState (projr
        (handlePieceMove (rolled (sampleState [5, -1, -1, -1] [9, -1, -1, -1]) ''p1'' 4)
               ''p1'' ''p1_piece_1'' 4))) = 0"
  by code_simp

section \<open>Turn order after a move\<close>

lemma handlePieceMove_Inr:
  assumes "handlePieceMove gs playerId' pieceId' d = Inr r"
  shows "\<exists>mr. executeMove gs playerId' pieceId' d = Inr mr
    \<and> gamePhase gs = Playing
    \<and> (checkWinCondition (res_gameState mr) playerId' \<longrightarrow>
         pm_gameState r = (res_gameState mr)\<lparr>gamePhase := Finished, winner := Some playerId',
                                              lastDiceRoll := None\<rparr>)
    \<and> (\<not> checkWinCondition (res_gameState mr) playerId'
         \<and> (getAnotherTurn d (res_cutPieces mr) \<or> gamePhase (res_gameState mr) \<noteq> Playing)
         \<longrightarrow> pm_gameState r = (res_gameState mr)\<lparr>lastDiceRoll := None\<rparr>)
    \<and> (\<not> checkWinCondition (res_gameState mr) playerId'
         \<and> \<not> getAnotherTurn d (res_cutPieces mr) \<and> gamePhase (res_gameState mr) = Playing
         \<longrightarrow> (\<exists>t. getNextPlayerTurn (currentTurn (res_gameState mr))
                     (players (res_gameState mr)) True = Inr t
                 \<and> pm_gameState r
                     = (res_gameState mr)\<lparr>currentTurn := t, lastDiceRoll := None\<rparr>))
    \<and> getsAnotherTurn r = getAnotherTurn d (res_cutPieces mr)
    \<and> res_cutPieces (pm_moveResult r) = res_cutPieces mr
    \<and> gameFinished r = (gamePhase (pm_gameState r) = Finished)"
  using assms
  by (auto simp: handlePieceMove_def Let_def split: if_splits sum.splits option.splits)

lemma executeMove_keeps_turn_and_phase:
  "executeMove gs playerId' pieceId' d = Inr mr \<Longrightarrow>
   currentTurn (res_gameState mr) = currentTurn gs \<and> gamePhase (res_gameState mr) = gamePhase gs"
  by (auto simp: executeMove_def Let_def split: option.splits if_splits)


text \<open>
  With some player connected, \<open>getNextPlayerTurn\<close> returns the first connected index
  after the current one.
\<close>

lemma getNextPlayerTurn_first_connected:
  assumes "pls \<noteq> []" and "\<exists>p \<in> set pls. connected_flag p"
  shows "\<exists>k < length pls.
           getNextPlayerTurn cur pls True = Inr ((cur + 1 + k) mod length pls)
           \<and> connected_flag (pls ! ((cur + 1 + k) mod length pls))
           \<and> (\<forall>j < k. \<not> connected_flag (pls ! ((cur + 1 + j) mod length pls)))"
proof -
  let ?n = "length pls"
  let ?s = "cur + 1"
  from assms(1) have n: "0 < ?n" by simp
  have eq: "getNextPlayerTurn cur pls True = Inr (skipDisconnectedLoop pls (?s mod ?n) 0)"
    using assms(1) by (simp add: getNextPlayerTurn_def)
  from assms(2) obtain k0 where k0: "k0 < ?n" "connected_flag (pls ! ((?s + k0) mod ?n))"
    using some_offset_connected by blast
  define k where "k = (LEAST k. connected_flag (pls ! ((?s + k) mod ?n)))"
  have kc: "connected_flag (pls ! ((?s + k) mod ?n))"
    unfolding k_def using k0(2) by (rule LeastI)
  have kl: "k \<le> k0" unfolding k_def using k0(2) by (rule Least_le)
  have kn: "\<forall>j < k. \<not> connected_flag (pls ! ((?s + j) mod ?n))"
    unfolding k_def using not_less_Least by blast
  have "skipDisconnectedLoop pls ((?s + 0) mod ?n) 0 = (?s + k) mod ?n"
    using n kl k0(1) kc kn by (intro skipDisconnectedLoop_finds) auto
  with eq kc kn kl k0(1) show ?thesis by (intro exI [of _ k]) simp
qed

lemma offset_of_other_index:
  fixes cur j n :: nat
  assumes "cur < n" and "j < n" and "j \<noteq> cur"
  shows "\<exists>d. d + 1 < n \<and> (cur + 1 + d) mod n = j"
proof (cases "cur < j")
  case True
  with assms have "(j - cur - 1) + 1 < n" "(cur + 1 + (j - cur - 1)) mod n = j" by simp_all
  then show ?thesis by blast
next
  case False
  with assms have lt: "j < cur" by simp
  with assms have a: "(j + n - cur - 1) + 1 < n" by simp
  from lt assms have "cur + 1 + (j + n - cur - 1) = j + n" by simp
  with assms(2) have "(cur + 1 + (j + n - cur - 1)) mod n = j" by simp
  with a show ?thesis by blast
qed

lemma last_offset_is_current:
  fixes cur k n :: nat
  assumes "cur < n" and "k < n" and "(cur + 1 + k) mod n = cur"
  shows "k + 1 = n"
proof (rule ccontr)
  assume ne: "k + 1 \<noteq> n"
  with assms(2) have k: "k + 1 < n" by simp
  show False
  proof (cases "cur + 1 + k < n")
    case True
    then have "(cur + 1 + k) mod n = cur + 1 + k" by simp
    with assms(3) show False by simp
  next
    case False
    then have ge: "n \<le> cur + 1 + k" by simp
    from k assms(1) have "cur + 1 + k - n < n" by simp
    with ge have "(cur + 1 + k) mod n = cur + 1 + k - n"
      by (metis le_mod_geq mod_less)
    with assms(3) ge k show False by simp
  qed
qed

text \<open>
  With another player connected, the next turn is never the current player's own.
\<close>

lemma getNextPlayerTurn_moves_on:
  assumes "cur < length pls" and "j < length pls" and "j \<noteq> cur"
    and "connected_flag (pls ! j)"
    and "getNextPlayerTurn cur pls True = Inr t"
  shows "t \<noteq> cur \<and> t < length pls \<and> connected_flag (pls ! t)"
proof -
  let ?n = "length pls"
  from assms(1) have ne: "pls \<noteq> []" by auto
  from assms(2,4) have "\<exists>p \<in> set pls. connected_flag p" using nth_mem by blast
  from getNextPlayerTurn_first_connected [OF ne this, of cur] assms(5) obtain k where
    k: "k < ?n" "t = (cur + 1 + k) mod ?n" "connected_flag (pls ! t)"
       "\<forall>i < k. \<not> connected_flag (pls ! ((cur + 1 + i) mod ?n))"
    by auto
  from offset_of_other_index [OF assms(1-3)] obtain d where
    d: "d + 1 < ?n" "(cur + 1 + d) mod ?n = j" by blast
  with assms(4) k(4) have "\<not> d < k" by blast
  with d(1) have "k + 1 \<noteq> ?n" by simp
  have "t \<noteq> cur"
  proof
    assume "t = cur"
    with k(2) have "(cur + 1 + k) mod ?n = cur" by simp
    then have "k + 1 = ?n" by (rule last_offset_is_current [OF assms(1) k(1)])
    with \<open>k + 1 \<noteq> ?n\<close> show False by simp
  qed
  moreover from assms(1) have "0 < ?n" by linarith
  then have "(cur + 1 + k) mod ?n < ?n" by (rule mod_less_divisor)
  with k(2) have "t < ?n" by simp
  ultimately show ?thesis using k(3) by simp
qed

lemma getNextPlayerTurn_sole_connected:
  assumes "cur < length pls" and "connected_flag (pls ! cur)"
    and "\<forall>i < length pls. i \<noteq> cur \<longrightarrow> \<not> connected_flag (pls ! i)"
  shows "getNextPlayerTurn cur pls True = Inr cur"
proof -
  let ?n = "length pls"
  from assms(1) have ne: "pls \<noteq> []" by auto
  from assms(1,2) have "\<exists>p \<in> set pls. connected_flag p" using nth_mem by blast
  from getNextPlayerTurn_first_connected [OF ne this, of cur] obtain k where
    k: "getNextPlayerTurn cur pls True = Inr ((cur + 1 + k) mod ?n)"
       "connected_flag (pls ! ((cur + 1 + k) mod ?n))" by blast
  from assms(1) have "0 < ?n" by linarith
  then have "(cur + 1 + k) mod ?n < ?n" by (rule mod_less_divisor)
  with assms(3) k(2) have "(cur + 1 + k) mod ?n = cur" by blast
  with k(1) show ?thesis by simp
qed

text \<open>
  \<open>executeMove\<close> rewrites the statistics of one player and leaves the connected flags
  alone, and \<open>getNextPlayerTurn\<close> reads nothing but those flags.
\<close>

lemma updateStats_length [simp]: "length (updateStats p ps pls) = length pls"
  by (simp add: updateStats_def Let_def split: option.splits)

lemma updateStats_connected:
  assumes "i < length pls"
  shows "connected_flag (updateStats p ps pls ! i) = connected_flag (pls ! i)"
proof (cases "findIndex (\<lambda>q. pid q = p) pls")
  case None
  then show ?thesis by (simp add: updateStats_def)
next
  case (Some x)
  then have "x < length pls" using findIndex_Some by fastforce
  with Some assms show ?thesis
    by (cases "x = i") (simp_all add: updateStats_def Let_def)
qed

lemma executeMove_players:
  assumes "executeMove gs playerId' pieceId' d = Inr mr"
  shows "length (players (res_gameState mr)) = length (players gs)
         \<and> (\<forall>i < length (players gs).
               connected_flag (players (res_gameState mr) ! i) = connected_flag (players gs ! i))"
  using assms
  by (auto simp: executeMove_def Let_def updateStats_connected split: option.splits if_splits)


lemma skipDisconnectedLoop_cong:
  assumes "length pls' = length pls"
    and "\<forall>i < length pls. connected_flag (pls' ! i) = connected_flag (pls ! i)"
    and "nextTurn < length pls"
  shows "skipDisconnectedLoop pls' nextTurn attempts = skipDisconnectedLoop pls nextTurn attempts"
  using assms
proof (induction pls nextTurn attempts rule: skipDisconnectedLoop.induct)
  case (1 pls nextTurn attempts)
  from "1.prems"(3) have n0: "0 < length pls" by linarith
  then have nx: "(nextTurn + 1) mod length pls < length pls" by (rule mod_less_divisor)
  from "1.prems"(2,3) have c: "connected_flag (pls' ! nextTurn) = connected_flag (pls ! nextTurn)"
    by simp
  show ?case
  proof (cases "\<not> connected_flag (pls ! nextTurn) \<and> attempts < length pls")
    case True
    with "1.IH" "1.prems"(1,2) nx
    have "skipDisconnectedLoop pls' ((nextTurn + 1) mod length pls) (attempts + 1)
            = skipDisconnectedLoop pls ((nextTurn + 1) mod length pls) (attempts + 1)"
      by blast
    with True c "1.prems"(1) show ?thesis
      by (subst skipDisconnectedLoop.simps, subst (2) skipDisconnectedLoop.simps) simp
  next
    case False
    with c "1.prems"(1) show ?thesis
      by (subst skipDisconnectedLoop.simps, subst (2) skipDisconnectedLoop.simps) auto
  qed
qed

lemma getNextPlayerTurn_cong:
  assumes "length pls' = length pls"
    and "\<forall>i < length pls. connected_flag (pls' ! i) = connected_flag (pls ! i)"
  shows "getNextPlayerTurn cur pls' b = getNextPlayerTurn cur pls b"
proof (cases "pls = []")
  case True
  with assms(1) show ?thesis by (simp add: getNextPlayerTurn_def)
next
  case False
  then have n0: "0 < length pls" by simp
  then have "(cur + 1) mod length pls < length pls" by (rule mod_less_divisor)
  from skipDisconnectedLoop_cong [OF assms this, of 0]
  have "skipDisconnectedLoop pls' ((cur + 1) mod length pls) 0
          = skipDisconnectedLoop pls ((cur + 1) mod length pls) 0" .
  moreover from False assms(1) have "pls' \<noteq> []" by auto
  ultimately show ?thesis using False assms(1) by (simp add: getNextPlayerTurn_def Let_def)
qed

lemma handlePieceMove_validated:
  "handlePieceMove gs playerId' pieceId' d = Inr r \<Longrightarrow>
   currentTurn gs < length (players gs) \<and> pid (players gs ! currentTurn gs) = playerId'"
  by (auto simp: handlePieceMove_def validateGameState_def Let_def split: if_splits)

text \<open>
  Claim C3, as the code has it. \<open>getAnotherTurn\<close> is true exactly when the roll is 6 or
  the list of cut pieces is not empty. After a move that \<open>handlePieceMove\<close> applied and
  that left the game in the playing phase, the extra-turn flag is \<open>getAnotherTurn\<close> of
  the roll and the pieces that move cut; when it is true \<open>currentTurn\<close> is unchanged,
  and when it is false \<open>currentTurn\<close> is what \<open>getNextPlayerTurn\<close> returns for the old
  turn. So when some player other than the current one is connected, \<open>currentTurn\<close>
  changes exactly when the flag is false; and when the current player is the only
  connected one, \<open>currentTurn\<close> does not change whatever the flag is.
\<close>

theorem turn_after_a_move:
  "(getAnotherTurn d cutPs \<longleftrightarrow> d = 6 \<or> cutPs \<noteq> [])
   \<and> (handlePieceMove gs playerId' pieceId' d = Inr r
        \<and> gamePhase (pm_gameState r) = Playing
      \<longrightarrow> getsAnotherTurn r = getAnotherTurn d (res_cutPieces (pm_moveResult r))
          \<and> (if getsAnotherTurn r
              then currentTurn (pm_gameState r) = currentTurn gs
              else getNextPlayerTurn (currentTurn gs) (players gs) True
                     = Inr (currentTurn (pm_gameState r)))
          \<and> ((\<exists>j < length (players gs). j \<noteq> currentTurn gs \<and> connected_flag (players gs ! j))
              \<longrightarrow> (currentTurn (pm_gameState r) \<noteq> currentTurn gs \<longleftrightarrow> \<not> getsAnotherTurn r))
          \<and> (connected_flag (players gs ! currentTurn gs)
                \<and> (\<forall>j < length (players gs). j \<noteq> currentTurn gs
                       \<longrightarrow> \<not> connected_flag (players gs ! j))
              \<longrightarrow> currentTurn (pm_gameState r) = currentTurn gs))"
proof (intro conjI impI)
  show "getAnotherTurn d cutPs \<longleftrightarrow> d = 6 \<or> cutPs \<noteq> []"
    by (simp add: getAnotherTurn_def)
next
  assume a: "handlePieceMove gs playerId' pieceId' d = Inr r
        \<and> gamePhase (pm_gameState r) = Playing"
  then have h: "handlePieceMove gs playerId' pieceId' d = Inr r" by simp
  from handlePieceMove_validated [OF h] have cur: "currentTurn gs < length (players gs)" by simp
  from handlePieceMove_Inr [OF h] obtain mr where e: "executeMove gs playerId' pieceId' d = Inr mr"
    and ph: "gamePhase gs = Playing"
    and win: "checkWinCondition (res_gameState mr) playerId' \<longrightarrow>
       pm_gameState r = (res_gameState mr)\<lparr>gamePhase := Finished, winner := Some playerId',
                                            lastDiceRoll := None\<rparr>"
    and keep: "\<not> checkWinCondition (res_gameState mr) playerId'
       \<and> (getAnotherTurn d (res_cutPieces mr) \<or> gamePhase (res_gameState mr) \<noteq> Playing)
       \<longrightarrow> pm_gameState r = (res_gameState mr)\<lparr>lastDiceRoll := None\<rparr>"
    and pass: "\<not> checkWinCondition (res_gameState mr) playerId'
       \<and> \<not> getAnotherTurn d (res_cutPieces mr) \<and> gamePhase (res_gameState mr) = Playing
       \<longrightarrow> (\<exists>t. getNextPlayerTurn (currentTurn (res_gameState mr))
                   (players (res_gameState mr)) True = Inr t
               \<and> pm_gameState r
                   = (res_gameState mr)\<lparr>currentTurn := t, lastDiceRoll := None\<rparr>)"
    and g: "getsAnotherTurn r = getAnotherTurn d (res_cutPieces mr)"
    and c: "res_cutPieces (pm_moveResult r) = res_cutPieces mr"
    by blast
  from e ph have tp: "currentTurn (res_gameState mr) = currentTurn gs"
      "gamePhase (res_gameState mr) = Playing"
    using executeMove_keeps_turn_and_phase by fastforce+
  from executeMove_players [OF e]
  have same: "getNextPlayerTurn (currentTurn gs) (players (res_gameState mr)) True
                = getNextPlayerTurn (currentTurn gs) (players gs) True"
    by (intro getNextPlayerTurn_cong) simp_all
  from a win have nw: "\<not> checkWinCondition (res_gameState mr) playerId'" by auto
  from g c show "getsAnotherTurn r = getAnotherTurn d (res_cutPieces (pm_moveResult r))"
    by simp
  have turn: "if getsAnotherTurn r
        then currentTurn (pm_gameState r) = currentTurn gs
        else getNextPlayerTurn (currentTurn gs) (players gs) True
               = Inr (currentTurn (pm_gameState r))"
  proof (cases "getAnotherTurn d (res_cutPieces mr)")
    case True
    with keep nw have "pm_gameState r = (res_gameState mr)\<lparr>lastDiceRoll := None\<rparr>" by simp
    with True g tp show ?thesis by simp
  next
    case False
    with pass nw tp obtain t where
      "getNextPlayerTurn (currentTurn (res_gameState mr)) (players (res_gameState mr)) True
         = Inr t"
      "pm_gameState r = (res_gameState mr)\<lparr>currentTurn := t, lastDiceRoll := None\<rparr>"
      by blast
    with False g tp same show ?thesis by simp
  qed
  then show "if getsAnotherTurn r
        then currentTurn (pm_gameState r) = currentTurn gs
        else getNextPlayerTurn (currentTurn gs) (players gs) True
               = Inr (currentTurn (pm_gameState r))" .
  {
    assume "\<exists>j < length (players gs). j \<noteq> currentTurn gs \<and> connected_flag (players gs ! j)"
    then obtain j where j: "j < length (players gs)" "j \<noteq> currentTurn gs"
      "connected_flag (players gs ! j)" by blast
    show "currentTurn (pm_gameState r) \<noteq> currentTurn gs \<longleftrightarrow> \<not> getsAnotherTurn r"
    proof (cases "getsAnotherTurn r")
      case True
      with turn show ?thesis by simp
    next
      case False
      with turn have "getNextPlayerTurn (currentTurn gs) (players gs) True
               = Inr (currentTurn (pm_gameState r))" by simp
      from getNextPlayerTurn_moves_on [OF cur j this] False show ?thesis by simp
    qed
  }
  {
    assume s: "connected_flag (players gs ! currentTurn gs)
                \<and> (\<forall>j < length (players gs). j \<noteq> currentTurn gs
                       \<longrightarrow> \<not> connected_flag (players gs ! j))"
    show "currentTurn (pm_gameState r) = currentTurn gs"
    proof (cases "getsAnotherTurn r")
      case True
      with turn show ?thesis by simp
    next
      case False
      with turn have "getNextPlayerTurn (currentTurn gs) (players gs) True
               = Inr (currentTurn (pm_gameState r))" by simp
      moreover from s cur have "getNextPlayerTurn (currentTurn gs) (players gs) True
               = Inr (currentTurn gs)"
        by (intro getNextPlayerTurn_sole_connected) simp_all
      ultimately show ?thesis by simp
    qed
  }
qed


text \<open>
  Three moves of red piece 1. From cell 5 by 3 with blue connected: nothing is cut and
  the turn passes to blue. From cell 5 by 4 onto blue piece 1 on cell 9: the blue
  piece is cut and red keeps the turn. From cell 5 by 3 with blue disconnected: nothing
  is cut and the turn stays with red.
\<close>

theorem turn_after_a_move_witness:
  "\<not> isl (handlePieceMove (rolled (sampleState [5, -1, -1, -1] [20, -1, -1, -1]) ''p1'' 3)
            ''p1'' ''p1_piece_1'' 3)
   \<and> gamePhase (pm_gameState (projr
        (handlePieceMove (rolled (sampleState [5, -1, -1, -1] [20, -1, -1, -1]) ''p1'' 3)
            ''p1'' ''p1_piece_1'' 3))) = Playing
   \<and> res_cutPieces (pm_moveResult (projr
        (handlePieceMove (rolled (sampleState [5, -1, -1, -1] [20, -1, -1, -1]) ''p1'' 3)
            ''p1'' ''p1_piece_1'' 3))) = []
   \<and> \<not> getsAnotherTurn (projr
        (handlePieceMove (rolled (sampleState [5, -1, -1, -1] [20, -1, -1, -1]) ''p1'' 3)
            ''p1'' ''p1_piece_1'' 3))
   \<and> currentTurn (pm_gameState (projr
        (handlePieceMove (rolled (sampleState [5, -1, -1, -1] [20, -1, -1, -1]) ''p1'' 3)
            ''p1'' ''p1_piece_1'' 3)))
       \<noteq> currentTurn (rolled (sampleState [5, -1, -1, -1] [20, -1, -1, -1]) ''p1'' 3)
   \<and> getNextPlayerTurn 0 [red_player, blue_player] True
       = Inr (currentTurn (pm_gameState (projr
          (handlePieceMove (rolled (sampleState [5, -1, -1, -1] [20, -1, -1, -1]) ''p1'' 3)
            ''p1'' ''p1_piece_1'' 3))))
   \<and> map position (pieces (pm_gameState (projr
        (handlePieceMove (rolled (sampleState [5, -1, -1, -1] [20, -1, -1, -1]) ''p1'' 3)
            ''p1'' ''p1_piece_1'' 3))))
       = [8, -1, -1, -1, 20, -1, -1, -1]
   \<and> \<not> isl (handlePieceMove (rolled (sampleState [5, -1, -1, -1] [9, -1, -1, -1]) ''p1'' 4)
            ''p1'' ''p1_piece_1'' 4)
   \<and> map piece_id (res_cutPieces (pm_moveResult (projr
        (handlePieceMove (rolled (sampleState [5, -1, -1, -1] [9, -1, -1, -1]) ''p1'' 4)
            ''p1'' ''p1_piece_1'' 4)))) = [''p2_piece_1'']
   \<and> getsAnotherTurn (projr
        (handlePieceMove (rolled (sampleState [5, -1, -1, -1] [9, -1, -1, -1]) ''p1'' 4)
            ''p1'' ''p1_piece_1'' 4))
   \<and> currentTurn (pm_gameState (projr
        (handlePieceMove (rolled (sampleState [5, -1, -1, -1] [9, -1, -1, -1]) ''p1'' 4)
            ''p1'' ''p1_piece_1'' 4)))
       = currentTurn (rolled (sampleState [5, -1, -1, -1] [9, -1, -1, -1]) ''p1'' 4)
   \<and> map position (pieces (pm_gameState (projr
        (handlePieceMove (rolled (sampleState [5, -1, -1, -1] [9, -1, -1, -1]) ''p1'' 4)
            ''p1'' ''p1_piece_1'' 4))))
       = [9, -1, -1, -1, -1, -1, -1, -1]
   \<and> \<not> isl (handlePieceMove
              (rolled ((sampleState [5, -1, -1, -1] [20, -1, -1, -1])
                         \<lparr>players := [red_player, offline blue_player]\<rparr>) ''p1'' 3)
              ''p1'' ''p1_piece_1'' 3)
   \<and> currentTurn (pm_gameState (projr
        (handlePieceMove
              (rolled ((sampleState [5, -1, -1, -1] [20, -1, -1, -1])
                         \<lparr>players := [red_player, offline blue_player]\<rparr>) ''p1'' 3)
              ''p1'' ''p1_piece_1'' 3)))
       = currentTurn (rolled ((sampleState [5, -1, -1, -1] [20, -1, -1, -1])
                         \<lparr>players := [red_player, offline blue_player]\<rparr>) ''p1'' 3)"
proof -
  let ?g1 = "rolled (sampleState [5, -1, -1, -1] [20, -1, -1, -1]) ''p1'' 3"
  let ?h1 = "handlePieceMove ?g1 ''p1'' ''p1_piece_1'' 3"
  have ok1: "\<not> isl ?h1" by code_simp
  then have e1: "?h1 = Inr (projr ?h1)" by simp
  have ph1: "gamePhase (pm_gameState (projr ?h1)) = Playing" by code_simp
  have cut1: "res_cutPieces (pm_moveResult (projr ?h1)) = []" by code_simp
  have pl1: "players ?g1 = [red_player, blue_player]" by code_simp
  have t1: "currentTurn ?g1 = 0" by code_simp
  have pos1: "map position (pieces (pm_gameState (projr ?h1)))
                = [8, -1, -1, -1, 20, -1, -1, -1]" by code_simp
  have "(1::nat) < length (players ?g1) \<and> 1 \<noteq> currentTurn ?g1
          \<and> connected_flag (players ?g1 ! 1)" by code_simp
  then have oth1: "\<exists>j < length (players ?g1). j \<noteq> currentTurn ?g1
                     \<and> connected_flag (players ?g1 ! j)" by blast
  note th1 = turn_after_a_move [of 3 "[]" ?g1 "''p1''" "''p1_piece_1''" "projr ?h1"]
  from th1 e1 ph1 cut1 have na1: "\<not> getsAnotherTurn (projr ?h1)" by simp
  from th1 e1 ph1 oth1 na1
  have adv1: "currentTurn (pm_gameState (projr ?h1)) \<noteq> currentTurn ?g1" by blast
  from th1 e1 ph1 na1
  have "getNextPlayerTurn (currentTurn ?g1) (players ?g1) True
          = Inr (currentTurn (pm_gameState (projr ?h1)))" by simp
  then have nx1: "getNextPlayerTurn 0 [red_player, blue_player] True
          = Inr (currentTurn (pm_gameState (projr ?h1)))" unfolding pl1 t1 .
  let ?g2 = "rolled (sampleState [5, -1, -1, -1] [9, -1, -1, -1]) ''p1'' 4"
  let ?h2 = "handlePieceMove ?g2 ''p1'' ''p1_piece_1'' 4"
  have ok2: "\<not> isl ?h2" by code_simp
  then have e2: "?h2 = Inr (projr ?h2)" by simp
  have ph2: "gamePhase (pm_gameState (projr ?h2)) = Playing" by code_simp
  have cut2: "map piece_id (res_cutPieces (pm_moveResult (projr ?h2))) = [''p2_piece_1'']"
    by code_simp
  then have ne2: "res_cutPieces (pm_moveResult (projr ?h2)) \<noteq> []" by auto
  have pos2: "map position (pieces (pm_gameState (projr ?h2)))
                = [9, -1, -1, -1, -1, -1, -1, -1]" by code_simp
  note th2 = turn_after_a_move [of 4 "res_cutPieces (pm_moveResult (projr ?h2))" ?g2
      "''p1''" "''p1_piece_1''" "projr ?h2"]
  from th2 e2 ph2 ne2 have a2: "getsAnotherTurn (projr ?h2)" by simp
  from th2 e2 ph2 a2
  have keep2: "currentTurn (pm_gameState (projr ?h2)) = currentTurn ?g2" by simp
  let ?g3 = "rolled ((sampleState [5, -1, -1, -1] [20, -1, -1, -1])
                         \<lparr>players := [red_player, offline blue_player]\<rparr>) ''p1'' 3"
  let ?h3 = "handlePieceMove ?g3 ''p1'' ''p1_piece_1'' 3"
  have ok3: "\<not> isl ?h3" by code_simp
  then have e3: "?h3 = Inr (projr ?h3)" by simp
  have ph3: "gamePhase (pm_gameState (projr ?h3)) = Playing" by code_simp
  have len3: "length (players ?g3) = 2" by code_simp
  have t3: "currentTurn ?g3 = 0" by code_simp
  have c3: "connected_flag (players ?g3 ! 0)" "\<not> connected_flag (players ?g3 ! 1)"
    by code_simp+
  have sole3: "connected_flag (players ?g3 ! currentTurn ?g3)
                \<and> (\<forall>j < length (players ?g3). j \<noteq> currentTurn ?g3
                       \<longrightarrow> \<not> connected_flag (players ?g3 ! j))"
    unfolding len3 t3 using c3 by (auto simp: less_Suc_eq numeral_2_eq_2)
  from turn_after_a_move [of 3 "[]" ?g3 "''p1''" "''p1_piece_1''" "projr ?h3"] e3 ph3 sole3
  have keep3: "currentTurn (pm_gameState (projr ?h3)) = currentTurn ?g3" by blast
  from ok1 ph1 cut1 na1 adv1 nx1 pos1 ok2 cut2 a2 keep2 pos2 ok3 keep3
  show ?thesis by (intro conjI)
qed

text \<open>
  Blue is disconnected and red moves piece 1 from cell 5 by 3. The move is applied, the
  game goes on, nothing is cut and there is no extra turn, yet \<open>currentTurn\<close> is 0 before
  and after: the turn has not advanced.
\<close>

theorem turn_does_not_advance_counterexample:
  "\<not> isl (handlePieceMove
            (rolled ((sampleState [5, -1, -1, -1] [20, -1, -1, -1])
                       \<lparr>players := [red_player, offline blue_player]\<rparr>) ''p1'' 3)
            ''p1'' ''p1_piece_1'' 3)
   \<and> gamePhase (pm_gameState (projr (handlePieceMove
            (rolled ((sampleState [5, -1, -1, -1] [20, -1, -1, -1])
                       \<lparr>players := [red_player, offline blue_player]\<rparr>) ''p1'' 3)
            ''p1'' ''p1_piece_1'' 3))) = Playing
   \<and> map position (pieces (pm_gameState (projr (handlePieceMove
            (rolled ((sampleState [5, -1, -1, -1] [20, -1, -1, -1])
                       \<lparr>players := [red_player, offline blue_player]\<rparr>) ''p1'' 3)
            ''p1'' ''p1_piece_1'' 3)))) = [8, -1, -1, -1, 20, -1, -1, -1]
   \<and> res_cutPieces (pm_moveResult (projr (handlePieceMove
            (rolled ((sampleState [5, -1, -1, -1] [20, -1, -1, -1])
                       \<lparr>players := [red_player, offline blue_player]\<rparr>) ''p1'' 3)
            ''p1'' ''p1_piece_1'' 3))) = []
   \<and> \<not> getAnotherTurn 3 []
   \<and> \<not> getsAnotherTurn (projr (handlePieceMove
            (rolled ((sampleState [5, -1, -1, -1] [20, -1, -1, -1])
                       \<lparr>players := [red_player, offline blue_player]\<rparr>) ''p1'' 3)
            ''p1'' ''p1_piece_1'' 3))
   \<and> currentTurn (rolled ((sampleState [5, -1, -1, -1] [20, -1, -1, -1])
                       \<lparr>players := [red_player, offline blue_player]\<rparr>) ''p1'' 3) = 0
   \<and> currentTurn (pm_gameState (projr (handlePieceMove
            (rolled ((sampleState [5, -1, -1, -1] [20, -1, -1, -1])
                       \<lparr>players := [red_player, offline blue_player]\<rparr>) ''p1'' 3)
            ''p1'' ''p1_piece_1'' 3))) = 0"
  by code_simp

section \<open>Finishing the game\<close>

lemma handlePieceMove_pieces:
  assumes "handlePieceMove gs playerId' pieceId' d = Inr r"
  shows "\<exists>mr. executeMove gs playerId' pieceId' d = Inr mr
           \<and> pieces (pm_gameState r) = pieces (res_gameState mr)
           \<and> (checkWinCondition (res_gameState mr) playerId' \<longrightarrow>
                pm_gameState r = (res_gameState mr)\<lparr>gamePhase := Finished,
                  winner := Some playerId', lastDiceRoll := None\<rparr>)"
proof -
  from handlePieceMove_Inr [OF assms] obtain mr where
    e: "executeMove gs playerId' pieceId' d = Inr mr"
    and win: "checkWinCondition (res_gameState mr) playerId' \<longrightarrow>
       pm_gameState r = (res_gameState mr)\<lparr>gamePhase := Finished, winner := Some playerId',
                                            lastDiceRoll := None\<rparr>"
    and keep: "\<not> checkWinCondition (res_gameState mr) playerId'
       \<and> (getAnotherTurn d (res_cutPieces mr) \<or> gamePhase (res_gameState mr) \<noteq> Playing)
       \<longrightarrow> pm_gameState r = (res_gameState mr)\<lparr>lastDiceRoll := None\<rparr>"
    and pass: "\<not> checkWinCondition (res_gameState mr) playerId'
       \<and> \<not> getAnotherTurn d (res_cutPieces mr) \<and> gamePhase (res_gameState mr) = Playing
       \<longrightarrow> (\<exists>t. getNextPlayerTurn (currentTurn (res_gameState mr))
                   (players (res_gameState mr)) True = Inr t
               \<and> pm_gameState r
                   = (res_gameState mr)\<lparr>currentTurn := t, lastDiceRoll := None\<rparr>)"
    by blast
  have "pieces (pm_gameState r) = pieces (res_gameState mr)"
  proof (cases "checkWinCondition (res_gameState mr) playerId'")
    case True
    with win show ?thesis by simp
  next
    case nw: False
    show ?thesis
    proof (cases "getAnotherTurn d (res_cutPieces mr) \<or> gamePhase (res_gameState mr) \<noteq> Playing")
      case True
      with nw keep show ?thesis by simp
    next
      case False
      with nw pass obtain t where
        "pm_gameState r = (res_gameState mr)\<lparr>currentTurn := t, lastDiceRoll := None\<rparr>"
        by blast
      then show ?thesis by simp
    qed
  qed
  with e win show ?thesis by blast
qed

lemma handlePieceMove_gameFinished:
  "handlePieceMove gs playerId' pieceId' d = Inr r \<Longrightarrow>
   gameFinished r = (gamePhase (pm_gameState r) = Finished)"
  using handlePieceMove_Inr by blast

lemma playingData_Finished:
  "room_gameState r = Finished \<or> map_option gamePhase (gameStateData r) = Some Finished
   \<Longrightarrow> playingData r = None"
  by (auto simp: playingData_def split: option.splits)

text \<open>Sending pieces home changes no owner and puts no piece on cell 57.\<close>

lemma sendHome_playerId:
  "i < length ps \<Longrightarrow> playerId (sendHome ps c ! i) = playerId (ps ! i)"
  by (auto simp: sendHome_def nth_list_update dest!: findIndex_Some split: option.splits)

lemma foldl_sendHome_playerId:
  "i < length ps \<Longrightarrow> playerId (foldl sendHome ps cs ! i) = playerId (ps ! i)"
  by (induction cs arbitrary: ps) (auto simp: sendHome_playerId)

lemma sendHome_finished:
  "i < length ps \<Longrightarrow> position (sendHome ps c ! i) = FINISH_END \<Longrightarrow> position (ps ! i) = FINISH_END"
  by (auto simp: sendHome_def nth_list_update dest!: findIndex_Some
      split: option.splits if_splits)

lemma foldl_sendHome_finished:
  "i < length ps \<Longrightarrow> position (foldl sendHome ps cs ! i) = FINISH_END
   \<Longrightarrow> position (ps ! i) = FINISH_END"
proof (induction cs arbitrary: ps)
  case Nil
  then show ?case by simp
next
  case (Cons c cs)
  from Cons.prems have "position (foldl sendHome (sendHome ps c) cs ! i) = FINISH_END" by simp
  with Cons.IH [of "sendHome ps c"] Cons.prems(1)
  have "position (sendHome ps c ! i) = FINISH_END" by simp
  with Cons.prems(1) show ?case by (rule sendHome_finished)
qed

text \<open>Where at least two elements pass a test, one of them is not at a given index.\<close>

lemma another_element:
  "2 \<le> length (filter P xs) \<Longrightarrow> \<exists>j < length xs. j \<noteq> i \<and> P (xs ! j)"
proof (induction xs arbitrary: i)
  case Nil
  then show ?case by simp
next
  case (Cons x xs)
  show ?case
  proof (cases i)
    case 0
    from Cons.prems have "filter P xs \<noteq> []" by (auto split: if_splits)
    then obtain y where "y \<in> set xs" "P y" by (auto simp: filter_empty_conv)
    then obtain j where "j < length xs" "P (xs ! j)" by (auto simp: in_set_conv_nth)
    with 0 show ?thesis by (intro exI [of _ "Suc j"]) simp
  next
    case (Suc i')
    show ?thesis
    proof (cases "P x")
      case True
      with Suc show ?thesis by (intro exI [of _ 0]) simp
    next
      case False
      with Cons.prems have "2 \<le> length (filter P xs)" by simp
      from Cons.IH [OF this, of i'] obtain j where "j < length xs" "j \<noteq> i'" "P (xs ! j)"
        by blast
      with Suc show ?thesis by (intro exI [of _ "Suc j"]) simp
    qed
  qed
qed

text \<open>
  No move completes a set. Take a player whose pieces, at least two of them, carry
  the player's colour, and who has not won. After every move \<open>executeMove\<close> applies for
  that player the win test is still false: the last piece would have to land on cell
  57 while another piece of its colour stands there, and \<open>isValidMove\<close> forbids that.
\<close>

lemma executeMove_never_wins:
  assumes e: "executeMove gs playerId' pieceId' d = Inr mr"
    and pl: "find (\<lambda>p. pid p = playerId') (players gs) = Some pl"
    and dist: "distinct (map piece_id (pieces gs))"
    and col: "\<forall>p \<in> set (pieces gs). playerId p = playerId' \<longrightarrow> playerColor p = color pl"
    and two: "2 \<le> length (filter (\<lambda>p. playerId p = playerId') (pieces gs))"
    and nw: "\<not> checkWinCondition gs playerId'"
  shows "\<not> checkWinCondition (res_gameState mr) playerId'"
proof
  assume w: "checkWinCondition (res_gameState mr) playerId'"
  let ?ps = "pieces gs"
  obtain i pl' where f: "findIndex (\<lambda>p. piece_id p = pieceId') ?ps = Some i"
    and pl': "find (\<lambda>p. pid p = playerId') (players gs) = Some pl'"
    and v: "isValidMove (?ps ! i) d gs (color pl')"
    and p: "pieces (res_gameState mr) =
       (foldl sendHome ?ps (res_cutPieces mr))
         [i := (foldl sendHome ?ps (res_cutPieces mr) ! i)
            \<lparr>position := getNextPosition (position (?ps ! i)) d (color pl'),
             isSafe := isSafePosition (getNextPosition (position (?ps ! i)) d (color pl'))\<rparr>]"
    by (rule executeMove_Inr [OF e])
  from pl pl' have [simp]: "pl' = pl" by simp
  let ?ps1 = "foldl sendHome ?ps (res_cutPieces mr)"
  let ?np = "getNextPosition (position (?ps ! i)) d (color pl)"
  from f have il: "i < length ?ps" using findIndex_Some by fastforce
  from w have all: "\<forall>q \<in> set (pieces (res_gameState mr)).
                      playerId q = playerId' \<longrightarrow> position q = FINISH_END"
    by (auto simp: checkWinCondition_def list_all_iff)
  have others: "position (?ps ! j) = FINISH_END"
    if j: "j < length ?ps" "j \<noteq> i" "playerId (?ps ! j) = playerId'" for j
  proof -
    from j(1,2) have eq: "pieces (res_gameState mr) ! j = ?ps1 ! j" unfolding p by simp
    from j(1) have "pieces (res_gameState mr) ! j \<in> set (pieces (res_gameState mr))"
      unfolding p by (intro nth_mem) simp
    moreover from j(1,3) have "playerId (?ps1 ! j) = playerId'"
      by (simp add: foldl_sendHome_playerId)
    ultimately have "position (?ps1 ! j) = FINISH_END" using all eq by simp
    with j(1) show ?thesis by (rule foldl_sendHome_finished)
  qed
  from nw obtain q where q: "q \<in> set ?ps" "playerId q = playerId'" "position q \<noteq> FINISH_END"
    by (auto simp: checkWinCondition_def list_all_iff)
  then obtain j where j: "j < length ?ps" "?ps ! j = q" by (auto simp: in_set_conv_nth)
  with q others [of j] have "j = i" by auto
  with j q have own: "playerId (?ps ! i) = playerId'" by simp
  from another_element [OF two, of i] obtain k where
    k: "k < length ?ps" "k \<noteq> i" "playerId (?ps ! k) = playerId'" by blast
  from others [OF k] have k57: "position (?ps ! k) = FINISH_END" .
  from il have "pieces (res_gameState mr) ! i \<in> set (pieces (res_gameState mr))"
    unfolding p by (intro nth_mem) simp
  moreover from il own have "playerId (pieces (res_gameState mr) ! i) = playerId'"
    unfolding p by (simp add: foldl_sendHome_playerId)
  moreover from il have "position (pieces (res_gameState mr) ! i) = ?np"
    unfolding p by simp
  ultimately have np: "?np = FINISH_END" using all by metis
  from k(1) have kin: "?ps ! k \<in> set ?ps" by simp
  with col k(3) have kc: "playerColor (?ps ! k) = color pl" by blast
  from dist k(1,2) il have kid: "piece_id (?ps ! k) \<noteq> piece_id (?ps ! i)"
    by (simp add: distinct_conv_nth)
  from kin k57 np kc kid
  have "\<exists>x \<in> set ?ps. position x = ?np \<and> playerColor x = color pl
            \<and> piece_id x \<noteq> piece_id (?ps ! i)"
    by (intro bexI [of _ "?ps ! k"]) simp_all
  then have "\<not> isValidMove (?ps ! i) d gs (color pl)"
    by (simp add: isValidMove_def Let_def list_ex_iff)
  with v show False by simp
qed


text \<open>The server handler leaves the phase and the winner of the room as they are.\<close>

lemma on_movePiece_stays_playing:
  assumes "on_movePiece gameRooms roomId playerId' pieceId' d = (rooms', Success np)"
    and "gameRooms roomId = Some r" and "gameStateData r = Some g"
  shows "\<exists>i. rooms' = gameRooms(roomId \<mapsto> r\<lparr>gameStateData := Some (movePieceApply g i np d)\<rparr>)
           \<and> room_gameState r = Playing \<and> gamePhase (movePieceApply g i np d) = Playing
           \<and> winner (movePieceApply g i np d) = winner g"
proof -
  from assms have pd: "playingData r = Some g"
    by (auto simp: on_movePiece_def playingData_def split: if_splits option.splits)
  then have "room_gameState r = Playing" "gamePhase g = Playing"
    by (auto simp: playingData_def split: if_splits option.splits)
  moreover from on_movePiece_Success [OF assms] obtain i where
    "rooms' = gameRooms(roomId \<mapsto> r\<lparr>gameStateData := Some (movePieceApply g i np d)\<rparr>)"
    by blast
  ultimately show ?thesis by (auto simp: movePieceApply_def)
qed

text \<open>
  The branch of \<open>handlePieceMove\<close> that ends the game: when the mover's win test holds
  after the move, the state is finished with the mover as winner. In the finished
  phase every roll and every move is rejected, by \<open>handleDiceRoll\<close> and
  \<open>handlePieceMove\<close> and by the server's \<open>rollDice\<close> and \<open>movePiece\<close> handlers.
\<close>

lemma handlePieceMove_finishes_when_won:
  assumes "handlePieceMove gs playerId' pieceId' d = Inr r"
    and "checkWinCondition (pm_gameState r) playerId'"
  shows "gamePhase (pm_gameState r) = Finished \<and> winner (pm_gameState r) = Some playerId'
         \<and> gameFinished r"
proof -
  from handlePieceMove_pieces [OF assms(1)] obtain mr :: move_result where
    p: "pieces (pm_gameState r) = pieces (res_gameState mr)"
    and win: "checkWinCondition (res_gameState mr) playerId' \<longrightarrow>
                pm_gameState r = (res_gameState mr)\<lparr>gamePhase := Finished,
                  winner := Some playerId', lastDiceRoll := None\<rparr>"
    by blast
  note fin = handlePieceMove_gameFinished [OF assms(1)]
  from assms(2) p have "checkWinCondition (res_gameState mr) playerId'"
    by (simp add: checkWinCondition_def)
  with win have eq: "pm_gameState r = (res_gameState mr)\<lparr>gamePhase := Finished,
                  winner := Some playerId', lastDiceRoll := None\<rparr>" by simp
  with fin show ?thesis by simp
qed

lemma finished_phase_rejects:
  "gamePhase fs = Finished \<Longrightarrow>
   isl (handleDiceRoll fs q scaled) \<and> isl (handlePieceMove fs q pieceId2 d2)"
  by (simp add: handleDiceRoll_def handlePieceMove_def Let_def)

lemma finished_room_rejects:
  assumes "gameRooms roomId = Some rm"
    and "room_gameState rm = Finished \<or> map_option gamePhase (gameStateData rm) = Some Finished"
  shows "on_rollDice gameRooms roomId q scaled = (gameRooms, Error Game_is_not_in_playing_state_s)
         \<and> on_movePiece gameRooms roomId q pieceId2 d2
             = (gameRooms, Error Game_is_not_in_playing_state_s)"
  using assms playingData_Finished [of rm] by (simp add: on_rollDice_def on_movePiece_def)

text \<open>When the win test fails after the move, the game goes on with the winner unchanged.\<close>

lemma handlePieceMove_not_won:
  assumes h: "handlePieceMove gs playerId' pieceId' d = Inr r"
    and e: "executeMove gs playerId' pieceId' d = Inr mr"
    and nw: "\<not> checkWinCondition (res_gameState mr) playerId'"
  shows "\<not> checkWinCondition (pm_gameState r) playerId'
         \<and> gamePhase (pm_gameState r) = Playing \<and> winner (pm_gameState r) = winner gs
         \<and> \<not> gameFinished r"
proof -
  from handlePieceMove_Inr [OF h] e obtain
    ph: "gamePhase gs = Playing"
    and keep: "\<not> checkWinCondition (res_gameState mr) playerId'
       \<and> (getAnotherTurn d (res_cutPieces mr) \<or> gamePhase (res_gameState mr) \<noteq> Playing)
       \<longrightarrow> pm_gameState r = (res_gameState mr)\<lparr>lastDiceRoll := None\<rparr>"
    and pass: "\<not> checkWinCondition (res_gameState mr) playerId'
       \<and> \<not> getAnotherTurn d (res_cutPieces mr) \<and> gamePhase (res_gameState mr) = Playing
       \<longrightarrow> (\<exists>t. getNextPlayerTurn (currentTurn (res_gameState mr))
                   (players (res_gameState mr)) True = Inr t
               \<and> pm_gameState r
                   = (res_gameState mr)\<lparr>currentTurn := t, lastDiceRoll := None\<rparr>)"
    by auto
  from e have w0: "winner (res_gameState mr) = winner gs"
    by (auto simp: executeMove_def Let_def split: option.splits if_splits)
  from e ph have p0: "gamePhase (res_gameState mr) = Playing"
    using executeMove_keeps_turn_and_phase by fastforce
  have "\<exists>t. pm_gameState r = (res_gameState mr)\<lparr>currentTurn := t, lastDiceRoll := None\<rparr>"
  proof (cases "getAnotherTurn d (res_cutPieces mr)")
    case True
    with keep nw have "pm_gameState r = (res_gameState mr)\<lparr>lastDiceRoll := None\<rparr>" by simp
    then have "pm_gameState r = (res_gameState mr)\<lparr>currentTurn := currentTurn (res_gameState mr),
        lastDiceRoll := None\<rparr>" by simp
    then show ?thesis by blast
  next
    case False
    with pass nw p0 show ?thesis by blast
  qed
  then obtain t where
    eq: "pm_gameState r = (res_gameState mr)\<lparr>currentTurn := t, lastDiceRoll := None\<rparr>" by blast
  from eq nw have "\<not> checkWinCondition (pm_gameState r) playerId'"
    by (simp add: checkWinCondition_def)
  moreover from eq p0 have ph': "gamePhase (pm_gameState r) = Playing" by simp
  moreover from eq w0 have "winner (pm_gameState r) = winner gs" by simp
  moreover from handlePieceMove_gameFinished [OF h] ph' have "\<not> gameFinished r" by simp
  ultimately show ?thesis by blast
qed

text \<open>
  Claim C2 has a move that makes the mover's win test true end the game.
  \<open>handlePieceMove\<close> has that branch and the finished phase rejects every roll and
  every move, as the lemmas above show, but no move gets there. For a player who has
  not won and whose pieces, at least two of them, carry the player's colour, every move
  that \<open>handlePieceMove\<close> applies leaves the win test false, the phase playing and the
  winner as it was. The server's \<open>movePiece\<close> handler has no win test and never sets
  the finished phase: after every move it accepts (from positions up to 57, by a roll
  up to 6) the room is still playing and the mover has not won.
\<close>

theorem no_move_finishes_the_game:
  "(find (\<lambda>p. pid p = playerId') (players gs) = Some pl
      \<and> distinct (map piece_id (pieces gs))
      \<and> (\<forall>p \<in> set (pieces gs). playerId p = playerId' \<longrightarrow> playerColor p = color pl)
      \<and> 2 \<le> length (filter (\<lambda>p. playerId p = playerId') (pieces gs))
      \<and> \<not> checkWinCondition gs playerId'
      \<and> handlePieceMove gs playerId' pieceId' d = Inr r
    \<longrightarrow> \<not> checkWinCondition (pm_gameState r) playerId'
        \<and> gamePhase (pm_gameState r) = Playing \<and> winner (pm_gameState r) = winner gs
        \<and> \<not> gameFinished r)
   \<and> (on_movePiece gameRooms roomId sp spc sd = (rooms', Success np)
        \<and> gameRooms roomId = Some rm \<and> gameStateData rm = Some g
        \<and> list_all (\<lambda>p. position p \<le> FINISH_END) (pieces g) \<and> sd \<le> 6
      \<longrightarrow> (\<exists>rm' g'. rooms' roomId = Some rm' \<and> gameStateData rm' = Some g'
            \<and> room_gameState rm' = Playing \<and> gamePhase g' = Playing
            \<and> winner g' = winner g \<and> \<not> checkWinCondition g' sp))"
proof (intro conjI impI)
  assume a: "find (\<lambda>p. pid p = playerId') (players gs) = Some pl
      \<and> distinct (map piece_id (pieces gs))
      \<and> (\<forall>p \<in> set (pieces gs). playerId p = playerId' \<longrightarrow> playerColor p = color pl)
      \<and> 2 \<le> length (filter (\<lambda>p. playerId p = playerId') (pieces gs))
      \<and> \<not> checkWinCondition gs playerId'
      \<and> handlePieceMove gs playerId' pieceId' d = Inr r"
  then have h: "handlePieceMove gs playerId' pieceId' d = Inr r" by simp
  from handlePieceMove_Inr [OF h] obtain mr where
    e: "executeMove gs playerId' pieceId' d = Inr mr" by blast
  from a have "\<not> checkWinCondition (res_gameState mr) playerId'"
    by (intro executeMove_never_wins [OF e, of pl]) simp_all
  from handlePieceMove_not_won [OF h e this]
  show "\<not> checkWinCondition (pm_gameState r) playerId'"
    and "gamePhase (pm_gameState r) = Playing"
    and "winner (pm_gameState r) = winner gs"
    and "\<not> gameFinished r" by simp_all
next
  assume a: "on_movePiece gameRooms roomId sp spc sd = (rooms', Success np)
        \<and> gameRooms roomId = Some rm \<and> gameStateData rm = Some g
        \<and> list_all (\<lambda>p. position p \<le> FINISH_END) (pieces g) \<and> sd \<le> 6"
  then have m: "on_movePiece gameRooms roomId sp spc sd = (rooms', Success np)"
    and rm: "gameRooms roomId = Some rm" and g: "gameStateData rm = Some g"
    and le: "list_all (\<lambda>p. position p \<le> FINISH_END) (pieces g)" and sd: "sd \<le> 6"
    by simp_all
  from on_movePiece_stays_playing [OF m rm g] obtain i where
    r': "rooms' = gameRooms(roomId \<mapsto> rm\<lparr>gameStateData := Some (movePieceApply g i np sd)\<rparr>)"
    and ph: "room_gameState rm = Playing" "gamePhase (movePieceApply g i np sd) = Playing"
      "winner (movePieceApply g i np sd) = winner g" by blast
  from on_movePiece_mover_has_not_won [OF m rm g le sd] r'
  have "\<not> checkWinCondition (movePieceApply g i np sd) sp" by simp
  with r' ph show "\<exists>rm' g'. rooms' roomId = Some rm' \<and> gameStateData rm' = Some g'
            \<and> room_gameState rm' = Playing \<and> gamePhase g' = Playing
            \<and> winner g' = winner g \<and> \<not> checkWinCondition g' sp"
    by simp
qed

text \<open>
  Red has one piece on cell 57 and moves piece 2 from cell 55 by 1: the move is applied
  and the game goes on. One step further the game is stuck. With piece 2 on cell 56
  and a roll of 1 red has no legal move and \<open>handlePieceMove\<close> throws Invalid move,
  and the same holds with three red pieces on cell 57 and the fourth on cell 56. On
  the server, red's piece on cell 50 goes by 3 to cell 1 and the room is still playing.
\<close>

theorem no_move_finishes_the_game_witness:
  "\<not> isl (handlePieceMove (rolled (sampleState [57, 55, -1, -1] [20, -1, -1, -1]) ''p1'' 1)
            ''p1'' ''p1_piece_2'' 1)
   \<and> map position (pieces (pm_gameState (projr
        (handlePieceMove (rolled (sampleState [57, 55, -1, -1] [20, -1, -1, -1]) ''p1'' 1)
            ''p1'' ''p1_piece_2'' 1))))
       = [57, 56, -1, -1, 20, -1, -1, -1]
   \<and> \<not> checkWinCondition (pm_gameState (projr
        (handlePieceMove (rolled (sampleState [57, 55, -1, -1] [20, -1, -1, -1]) ''p1'' 1)
            ''p1'' ''p1_piece_2'' 1))) ''p1''
   \<and> gamePhase (pm_gameState (projr
        (handlePieceMove (rolled (sampleState [57, 55, -1, -1] [20, -1, -1, -1]) ''p1'' 1)
            ''p1'' ''p1_piece_2'' 1))) = Playing
   \<and> winner (pm_gameState (projr
        (handlePieceMove (rolled (sampleState [57, 55, -1, -1] [20, -1, -1, -1]) ''p1'' 1)
            ''p1'' ''p1_piece_2'' 1))) = None
   \<and> getValidMoves (rolled (sampleState [57, 56, -1, -1] [20, -1, -1, -1]) ''p1'' 1) ''p1'' 1 = []
   \<and> handlePieceMove (rolled (sampleState [57, 56, -1, -1] [20, -1, -1, -1]) ''p1'' 1)
        ''p1'' ''p1_piece_2'' 1 = Inl Invalid_move
   \<and> getValidMoves (rolled (sampleState [57, 57, 57, 56] [20, -1, -1, -1]) ''p1'' 1) ''p1'' 1 = []
   \<and> handlePieceMove (rolled (sampleState [57, 57, 57, 56] [20, -1, -1, -1]) ''p1'' 1)
        ''p1'' ''p1_piece_4'' 1 = Inl Invalid_move
   \<and> snd (on_movePiece
          (sampleRooms (rolled (sampleState [50, -1, -1, -1] [20, -1, -1, -1]) ''p1'' 3))
          ''ROOM01'' ''p1'' ''p1_piece_1'' 3) = Success 1
   \<and> (\<exists>rm' g'. fst (on_movePiece
                 (sampleRooms (rolled (sampleState [50, -1, -1, -1] [20, -1, -1, -1]) ''p1'' 3))
                 ''ROOM01'' ''p1'' ''p1_piece_1'' 3) ''ROOM01'' = Some rm'
         \<and> gameStateData rm' = Some g' \<and> room_gameState rm' = Playing
         \<and> gamePhase g' = Playing \<and> winner g' = None \<and> \<not> checkWinCondition g' ''p1'')"
proof -
  let ?gs = "rolled (sampleState [57, 55, -1, -1] [20, -1, -1, -1]) ''p1'' 1"
  let ?h = "handlePieceMove ?gs ''p1'' ''p1_piece_2'' 1"
  let ?f = "pm_gameState (projr ?h)"
  have ok: "\<not> isl ?h" by code_simp
  then have e: "?h = Inr (projr ?h)" by simp
  have pos: "map position (pieces ?f) = [57, 56, -1, -1, 20, -1, -1, -1]" by code_simp
  have f: "find (\<lambda>p. pid p = ''p1'') (players ?gs) = Some red_player" by code_simp
  have di: "distinct (map piece_id (pieces ?gs))" by code_simp
  have "list_all (\<lambda>p. playerId p = ''p1'' \<longrightarrow> playerColor p = color red_player) (pieces ?gs)"
    by code_simp
  then have col: "\<forall>p \<in> set (pieces ?gs). playerId p = ''p1'' \<longrightarrow> playerColor p = color red_player"
    unfolding list_all_iff .
  have two: "2 \<le> length (filter (\<lambda>p. playerId p = ''p1'') (pieces ?gs))" by code_simp
  have nw: "\<not> checkWinCondition ?gs ''p1''" by code_simp
  have w0: "winner ?gs = None" by code_simp
  from no_move_finishes_the_game [of "''p1''" ?gs red_player "''p1_piece_2''" 1 "projr ?h"]
    f di col two nw e
  have res: "\<not> checkWinCondition ?f ''p1''" "gamePhase ?f = Playing" "winner ?f = winner ?gs"
    by blast+
  from res(3) w0 have wn: "winner ?f = None" by simp
  have s1: "getValidMoves (rolled (sampleState [57, 56, -1, -1] [20, -1, -1, -1]) ''p1'' 1) ''p1'' 1
              = []" by code_simp
  have s2: "handlePieceMove (rolled (sampleState [57, 56, -1, -1] [20, -1, -1, -1]) ''p1'' 1)
        ''p1'' ''p1_piece_2'' 1 = Inl Invalid_move" by code_simp
  have s3: "getValidMoves (rolled (sampleState [57, 57, 57, 56] [20, -1, -1, -1]) ''p1'' 1) ''p1'' 1
              = []" by code_simp
  have s4: "handlePieceMove (rolled (sampleState [57, 57, 57, 56] [20, -1, -1, -1]) ''p1'' 1)
        ''p1'' ''p1_piece_4'' 1 = Inl Invalid_move" by code_simp
  let ?sg = "rolled (sampleState [50, -1, -1, -1] [20, -1, -1, -1]) ''p1'' 3"
  let ?srv = "sampleRooms ?sg"
  let ?mv = "on_movePiece ?srv ''ROOM01'' ''p1'' ''p1_piece_1'' 3"
  have sn: "snd ?mv = Success 1" by code_simp
  have acc: "?mv = (fst ?mv, Success 1)" unfolding sn [symmetric] by simp
  have srm: "?srv ''ROOM01'' = Some (sampleRoom ?sg)" by (simp add: sampleRooms_def)
  have sgd: "gameStateData (sampleRoom ?sg) = Some ?sg" by (simp add: sampleRoom_def)
  have rng: "list_all (\<lambda>p. position p \<le> FINISH_END) (pieces ?sg)" by code_simp
  have sw: "winner ?sg = None" by code_simp
  have "\<exists>rm' g'. fst ?mv ''ROOM01'' = Some rm' \<and> gameStateData rm' = Some g'
          \<and> room_gameState rm' = Playing \<and> gamePhase g' = Playing
          \<and> winner g' = winner ?sg \<and> \<not> checkWinCondition g' ''p1''"
    using no_move_finishes_the_game [where gameRooms = ?srv and roomId = "''ROOM01''"
        and sp = "''p1''" and spc = "''p1_piece_1''" and sd = 3 and rooms' = "fst ?mv"
        and np = 1 and rm = "sampleRoom ?sg" and g = ?sg] acc srm sgd rng
    by simp
  then have sv: "\<exists>rm' g'. fst ?mv ''ROOM01'' = Some rm' \<and> gameStateData rm' = Some g'
          \<and> room_gameState rm' = Playing \<and> gamePhase g' = Playing
          \<and> winner g' = None \<and> \<not> checkWinCondition g' ''p1''"
    unfolding sw .
  from ok pos res(1,2) wn s1 s2 s3 s4 sn sv show ?thesis by (intro conjI)
qed

section \<open>The server's move handler and the rules engine\<close>

text \<open>
  Claim C1 says that every move the server accepts is one of \<open>getValidMoves\<close>. The
  \<open>movePiece\<close> handler does not consult the rules engine, and the two disagree. With
  red piece 1 on cell 50 and a roll of 3 the only legal move enters the finish area
  (50 to 54), while the handler accepts the intent and wraps the piece around to cell
  1. With red pieces on cells 3 and 5 and a roll of 2, piece 1 has no legal move (its
  destination holds red piece 2; the only legal move is piece 2 from 5 to 7), while
  the handler accepts the intent and puts both red pieces on cell 5.
\<close>

theorem movePiece_bypasses_rules_engine:
  "snd (on_movePiece (sampleRooms (rolled (sampleState [50, -1, -1, -1] [20, -1, -1, -1]) ''p1'' 3))
          ''ROOM01'' ''p1'' ''p1_piece_1'' 3) = Success 1
   \<and> roomPositions (fst (on_movePiece
          (sampleRooms (rolled (sampleState [50, -1, -1, -1] [20, -1, -1, -1]) ''p1'' 3))
          ''ROOM01'' ''p1'' ''p1_piece_1'' 3)) ''ROOM01''
       = [1, -1, -1, -1, 20, -1, -1, -1]
   \<and> map (\<lambda>m. (pieceId m, fromPosition m, toPosition m))
        (getValidMoves (rolled (sampleState [50, -1, -1, -1] [20, -1, -1, -1]) ''p1'' 3) ''p1'' 3)
       = [(''p1_piece_1'', 50, 54)]
   \<and> snd (on_movePiece (sampleRooms (rolled (sampleState [3, 5, -1, -1] [20, -1, -1, -1]) ''p1'' 2))
          ''ROOM01'' ''p1'' ''p1_piece_1'' 2) = Success 5
   \<and> roomPositions (fst (on_movePiece
          (sampleRooms (rolled (sampleState [3, 5, -1, -1] [20, -1, -1, -1]) ''p1'' 2))
          ''ROOM01'' ''p1'' ''p1_piece_1'' 2)) ''ROOM01''
       = [5, 5, -1, -1, 20, -1, -1, -1]
   \<and> map (\<lambda>m. (pieceId m, fromPosition m, toPosition m))
        (getValidMoves (rolled (sampleState [3, 5, -1, -1] [20, -1, -1, -1]) ''p1'' 2) ''p1'' 2)
       = [(''p1_piece_2'', 5, 7)]"
  by code_simp

text \<open>
  In the rules engine the same-colour block covers the terminal cell 57 as well: a piece
  cannot move onto it while another piece of the moving colour stands there.
\<close>

lemma finish_cell_blocks_own_colour:
  assumes "q \<in> set (pieces gs)" and "piece_id q \<noteq> piece_id pc"
    and "playerColor q = c" and "position q = FINISH_END"
    and "getNextPosition (position pc) d c = FINISH_END"
  shows "\<not> isValidMove pc d gs c"
  using assms by (auto simp: isValidMove_def Let_def list_ex_iff)

section \<open>Joining a room\<close>

lemma ensureGameStateData_present:
  "gameStateData rm \<noteq> None \<Longrightarrow> ensureGameStateData rm = rm"
  by (auto simp: ensureGameStateData_def split: option.splits)

lemma ensureGameStateData_players [simp]:
  "room_players (ensureGameStateData rm) = room_players rm"
  by (auto simp: ensureGameStateData_def split: option.splits)

lemma ensureGameStateData_Some:
  "\<exists>g. gameStateData (ensureGameStateData rm) = Some g"
  by (auto simp: ensureGameStateData_def split: option.splits)

text \<open>
  Claim C8. Let the room exist and let the player identifier name one of its players.
  When that player is connected through a socket other than the caller's, the join is
  answered with "Player already connected from another session", the caller's socket
  is not attached, the room's players and phase are as before, and a room that has
  its game data (as every room this server creates has) leaves the registry
  unchanged. Otherwise the player is re-attached: the same player entry is marked
  connected with the caller's socket id, and the player list keeps its length and
  its identifiers, in the room and in its game data.
\<close>

theorem duplicate_join_rejected:
  assumes "gameRooms roomId = Some rm"
    and "findIndex (\<lambda>p. pid p = playerId' \<or> uuid p = Some playerId') (room_players rm) = Some i"
  shows "if connected_flag (room_players rm ! i) \<and> truthy (socketId (room_players rm ! i))
            \<and> socketId (room_players rm ! i) \<noteq> Some (socket_id sock)
         then on_joinRoom gameRooms sock roomId playerId'
                = (gameRooms(roomId \<mapsto> ensureGameStateData rm), sock,
                   Error Player_already_connected_from_another_session)
              \<and> room_players (ensureGameStateData rm) = room_players rm
              \<and> room_gameState (ensureGameStateData rm) = room_gameState rm
              \<and> (if gameStateData rm \<noteq> None
                  then on_joinRoom gameRooms sock roomId playerId'
                         = (gameRooms, sock, Error Player_already_connected_from_another_session)
                  else True)
         else (\<exists>rm'. on_joinRoom gameRooms sock roomId playerId'
                  = (gameRooms(roomId \<mapsto> rm'),
                     sock\<lparr>socket_roomId := Some roomId, socket_playerId := Some playerId'\<rparr>,
                     RoomData rm')
                \<and> room_players rm'
                    = (room_players rm)[i := (room_players rm ! i)
                        \<lparr>connected_flag := True, socketId := Some (socket_id sock)\<rparr>]
                \<and> length (room_players rm') = length (room_players rm)
                \<and> map pid (room_players rm') = map pid (room_players rm)
                \<and> map_option players (gameStateData rm') = Some (room_players rm'))"
proof (cases "connected_flag (room_players rm ! i) \<and> truthy (socketId (room_players rm ! i))
            \<and> socketId (room_players rm ! i) \<noteq> Some (socket_id sock)")
  case True
  have j: "on_joinRoom gameRooms sock roomId playerId'
                = (gameRooms(roomId \<mapsto> ensureGameStateData rm), sock,
                   Error Player_already_connected_from_another_session)"
    using assms True by (simp add: on_joinRoom_def Let_def)
  have "gameRooms(roomId \<mapsto> ensureGameStateData rm) = gameRooms" if "gameStateData rm \<noteq> None"
    using that assms(1) by (simp add: ensureGameStateData_present map_upd_triv)
  with j True show ?thesis
    by (simp add: ensureGameStateData_def split: option.splits)
next
  case False
  let ?pl = "(room_players rm ! i)\<lparr>connected_flag := True, socketId := Some (socket_id sock)\<rparr>"
  let ?rm' = "setPlayers (ensureGameStateData rm) ((room_players rm)[i := ?pl])"
  have j: "on_joinRoom gameRooms sock roomId playerId'
        = (gameRooms(roomId \<mapsto> ?rm'),
           sock\<lparr>socket_roomId := Some roomId, socket_playerId := Some playerId'\<rparr>,
           RoomData ?rm')"
    using assms False by (simp add: on_joinRoom_def Let_def)
  have p: "room_players ?rm' = (room_players rm)[i := ?pl]" by (simp add: setPlayers_def)
  from assms(2) have il: "i < length (room_players rm)" using findIndex_Some by fastforce
  have m: "map pid (room_players ?rm') = map pid (room_players rm)"
    using il by (simp add: p map_update list_update_same_conv)
  obtain g where "gameStateData (ensureGameStateData rm) = Some g"
    using ensureGameStateData_Some by blast
  then have d: "map_option players (gameStateData ?rm') = Some (room_players ?rm')"
    by (simp add: setPlayers_def)
  from j p m d False show ?thesis by auto
qed



text \<open>
  Red is attached to \<open>sockA\<close>: a join as \<open>p1\<close> from \<open>sockB\<close> is rejected and changes
  nothing. Blue has no live connection: a join as \<open>p2\<close> from \<open>sockB\<close> re-attaches blue,
  and the room still has the two players \<open>p1\<close> and \<open>p2\<close>.
\<close>

theorem duplicate_join_rejected_witness:
  "lobbyRooms ''ROOM01'' = Some lobbyRoom
   \<and> findIndex (\<lambda>p. pid p = ''p1'' \<or> uuid p = Some ''p1'') (room_players lobbyRoom) = Some 0
   \<and> on_joinRoom lobbyRooms (newSocket ''sockB'') ''ROOM01'' ''p1''
       = (lobbyRooms, newSocket ''sockB'', Error Player_already_connected_from_another_session)
   \<and> findIndex (\<lambda>p. pid p = ''p2'' \<or> uuid p = Some ''p2'') (room_players lobbyRoom) = Some 1
   \<and> (\<exists>rm'. on_joinRoom lobbyRooms (newSocket ''sockB'') ''ROOM01'' ''p2''
          = (lobbyRooms(''ROOM01'' \<mapsto> rm'),
             (newSocket ''sockB'')\<lparr>socket_roomId := Some ''ROOM01'',
                                   socket_playerId := Some ''p2''\<rparr>,
             RoomData rm')
        \<and> map pid (room_players rm') = [''p1'', ''p2'']
        \<and> map connected_flag (room_players rm') = [True, True]
        \<and> map socketId (room_players rm') = [Some ''sockA'', Some ''sockB''])"
proof -
  let ?rm = "lobbyRoom"
  have r: "lobbyRooms ''ROOM01'' = Some ?rm" by (simp add: lobbyRooms_def)
  have gd: "gameStateData ?rm \<noteq> None" by (simp add: lobbyRoom_def sampleRoom_def)
  have i0: "findIndex (\<lambda>p. pid p = ''p1'' \<or> uuid p = Some ''p1'') (room_players ?rm) = Some 0"
    by code_simp
  have i1: "findIndex (\<lambda>p. pid p = ''p2'' \<or> uuid p = Some ''p2'') (room_players ?rm) = Some 1"
    by code_simp
  have live: "connected_flag (room_players ?rm ! 0) \<and> truthy (socketId (room_players ?rm ! 0))
            \<and> socketId (room_players ?rm ! 0) \<noteq> Some (socket_id (newSocket ''sockB''))"
    by code_simp
  have dead: "\<not> (connected_flag (room_players ?rm ! 1) \<and> truthy (socketId (room_players ?rm ! 1))
            \<and> socketId (room_players ?rm ! 1) \<noteq> Some (socket_id (newSocket ''sockB'')))"
    by code_simp
  have "if gameStateData ?rm \<noteq> None
        then on_joinRoom lobbyRooms (newSocket ''sockB'') ''ROOM01'' ''p1''
               = (lobbyRooms, newSocket ''sockB'',
                  Error Player_already_connected_from_another_session)
        else True"
    using duplicate_join_rejected [where gameRooms = lobbyRooms and roomId = "''ROOM01''"
      and sock = "newSocket ''sockB''", OF r i0]
    unfolding if_P [OF live] by (elim conjE)
  then have rej: "on_joinRoom lobbyRooms (newSocket ''sockB'') ''ROOM01'' ''p1''
       = (lobbyRooms, newSocket ''sockB'', Error Player_already_connected_from_another_session)"
    unfolding if_P [OF gd] .
  let ?sock' = "(newSocket ''sockB'')\<lparr>socket_roomId := Some ''ROOM01'',
                                       socket_playerId := Some ''p2''\<rparr>"
  let ?pl' = "(room_players ?rm ! 1)\<lparr>connected_flag := True,
                 socketId := Some (socket_id (newSocket ''sockB''))\<rparr>"
  have "\<exists>rm'. on_joinRoom lobbyRooms (newSocket ''sockB'') ''ROOM01'' ''p2''
                = (lobbyRooms(''ROOM01'' \<mapsto> rm'), ?sock', RoomData rm')
              \<and> room_players rm' = (room_players ?rm)[1 := ?pl']
              \<and> length (room_players rm') = length (room_players ?rm)
              \<and> map pid (room_players rm') = map pid (room_players ?rm)
              \<and> map_option players (gameStateData rm') = Some (room_players rm')"
    using duplicate_join_rejected [where gameRooms = lobbyRooms and roomId = "''ROOM01''"
      and sock = "newSocket ''sockB''", OF r i1]
    unfolding if_not_P [OF dead] .
  then obtain rm' where all: "on_joinRoom lobbyRooms (newSocket ''sockB'') ''ROOM01'' ''p2''
                = (lobbyRooms(''ROOM01'' \<mapsto> rm'), ?sock', RoomData rm')
              \<and> room_players rm' = (room_players ?rm)[1 := ?pl']
              \<and> length (room_players rm') = length (room_players ?rm)
              \<and> map pid (room_players rm') = map pid (room_players ?rm)
              \<and> map_option players (gameStateData rm') = Some (room_players rm')" ..
  note j = all [THEN conjunct1]
  note p = all [THEN conjunct2, THEN conjunct1]
  have pls: "(room_players ?rm)[1 := ?pl']
               = [onlineVia red_player ''sockA'', onlineVia blue_player ''sockB'']"
    by code_simp
  from p pls have q: "room_players rm'
      = [onlineVia red_player ''sockA'', onlineVia blue_player ''sockB'']" by simp
  have m1: "map pid (room_players rm') = [''p1'', ''p2'']" unfolding q by code_simp
  have m2: "map connected_flag (room_players rm') = [True, True]" unfolding q by code_simp
  have m3: "map socketId (room_players rm') = [Some ''sockA'', Some ''sockB'']"
    unfolding q by code_simp
  from j m1 m2 m3 have "\<exists>rm'. on_joinRoom lobbyRooms (newSocket ''sockB'') ''ROOM01'' ''p2''
          = (lobbyRooms(''ROOM01'' \<mapsto> rm'), ?sock', RoomData rm')
        \<and> map pid (room_players rm') = [''p1'', ''p2'']
        \<and> map connected_flag (room_players rm') = [True, True]
        \<and> map socketId (room_players rm') = [Some ''sockA'', Some ''sockB'']"
    by (intro exI [of _ rm'] conjI)
  with r i0 i1 rej show ?thesis by (intro conjI)
qed

section \<open>The move selector\<close>

lemma findIndex_exists:
  "x \<in> set xs \<Longrightarrow> P x \<Longrightarrow> \<exists>i. findIndex P xs = Some i"
  by (induction xs) auto

lemma getValidMoves_found:
  "find (\<lambda>p. pid p = playerId') (players gs) = Some pl \<Longrightarrow>
   getValidMoves gs playerId' d
     = map (mkMove gs (color pl) d)
         (filter (\<lambda>pc. playerId pc = playerId' \<and> isValidMove pc d gs (color pl)) (pieces gs))"
  by (simp add: getValidMoves_def)

lemma first_with_id_is_the_piece:
  assumes "distinct (map piece_id ps)" and "pc \<in> set ps"
  shows "\<exists>i < length ps. findIndex (\<lambda>p. piece_id p = piece_id pc) ps = Some i \<and> ps ! i = pc"
proof -
  from assms(2) obtain i where i: "findIndex (\<lambda>p. piece_id p = piece_id pc) ps = Some i"
    using findIndex_exists [of pc ps "\<lambda>p. piece_id p = piece_id pc"] by blast
  then have il: "i < length ps" and ii: "piece_id (ps ! i) = piece_id pc"
    using findIndex_Some [OF i] by simp_all
  from il have "ps ! i \<in> set ps" by simp
  with assms ii have "ps ! i = pc" by (rule_tac same_id_same_piece [of ps]) assumption+
  with i il show ?thesis by blast
qed

text \<open>
  No legal move wins at once. For a player whose pieces, at least two of them, carry the
  player's colour, the state \<open>evaluateMove\<close> builds for a legal move never passes the
  win test: the other pieces would stand on cell 57 and block the moved one from it.
\<close>

lemma no_legal_move_wins:
  assumes pl: "find (\<lambda>p. pid p = playerId') (players gs) = Some pl"
    and dist: "distinct (map piece_id (pieces gs))"
    and col: "\<forall>p \<in> set (pieces gs). playerId p = playerId' \<longrightarrow> playerColor p = color pl"
    and two: "2 \<le> length (filter (\<lambda>p. playerId p = playerId') (pieces gs))"
    and m: "m \<in> set (getValidMoves gs playerId' d)"
  shows "\<not> winsGame gs playerId' m"
proof
  assume w: "winsGame gs playerId' m"
  let ?ps = "pieces gs"
  let ?c = "color pl"
  from m obtain pc where pc: "pc \<in> set ?ps" "playerId pc = playerId'"
    "isValidMove pc d gs ?c" and mk: "m = mkMove gs ?c d pc"
    unfolding getValidMoves_found [OF pl] by auto
  let ?np = "getNextPosition (position pc) d ?c"
  from mk have mid: "pieceId m = piece_id pc" and mto: "toPosition m = ?np"
    by (simp_all add: mkMove_def Let_def)
  from first_with_id_is_the_piece [OF dist pc(1)] obtain i where il: "i < length ?ps"
    and i: "findIndex (\<lambda>p. piece_id p = piece_id pc) ?ps = Some i"
    and pi: "?ps ! i = pc" by blast
  have tmp: "pieces (tempGameState gs m) = ?ps[i := pc\<lparr>position := ?np\<rparr>]"
    using i pi mid mto by (simp add: tempGameState_def)
  from w have all: "\<forall>q \<in> set (?ps[i := pc\<lparr>position := ?np\<rparr>]).
                      playerId q = playerId' \<longrightarrow> position q = FINISH_END"
    unfolding winsGame_def checkWinCondition_def list_all_iff tmp by simp
  from another_element [OF two, of i] obtain k where
    k: "k < length ?ps" "k \<noteq> i" "playerId (?ps ! k) = playerId'" by blast
  from k(1,2) have "?ps ! k \<in> set (?ps[i := pc\<lparr>position := ?np\<rparr>])"
    by (metis length_list_update nth_list_update_neq nth_mem)
  with all k(3) have k57: "position (?ps ! k) = FINISH_END" by blast
  from il have "pc\<lparr>position := ?np\<rparr> \<in> set (?ps[i := pc\<lparr>position := ?np\<rparr>])"
    by (rule set_update_memI)
  with all pc(2) have np: "?np = FINISH_END" by auto
  from k(1) have kin: "?ps ! k \<in> set ?ps" by simp
  with col k(3) have kc: "playerColor (?ps ! k) = ?c" by blast
  from dist k(1,2) il pi have kid: "piece_id (?ps ! k) \<noteq> piece_id pc"
    by (auto simp: distinct_conv_nth)
  from kin k57 np kc kid
  have "\<exists>x \<in> set ?ps. position x = ?np \<and> playerColor x = ?c \<and> piece_id x \<noteq> piece_id pc"
    by (intro bexI [of _ "?ps ! k"]) simp_all
  then have "\<not> isValidMove pc d gs ?c"
    by (simp add: isValidMove_def Let_def list_ex_iff)
  with pc(3) show False by simp
qed






end
